theory Spec2Isabelle
  imports Complex_Main
begin

section \<open>Scatter chart: data model\<close>

text \<open>
  The development follows \<^verbatim>\<open>packages/lib/src/js/charts/scatter.js\<close>, the class
  \<^verbatim>\<open>ScatterChart\<close>. JavaScript values that reach the class are modelled as far as the
  class inspects them: the chart data is a tree of arrays with plain objects at the leaves,
  array indices are integers (the class compares them with the sentinel \<open>-1\<close>), and a
  property that may be \<^verbatim>\<open>null\<close> or \<^verbatim>\<open>undefined\<close> is an \<open>option\<close>.
\<close>

datatype jsval = Obj "(string \<times> int) list" | Arr "jsval list"

text \<open>The only exception the class can raise by itself: a property read or a method call
  on \<^verbatim>\<open>undefined\<close>, or a call of something that is not a function.\<close>

datatype error = TypeError

text \<open>The object the triangulation hands to \<^verbatim>\<open>onPoint\<close>: the data record together with
  its position, \<^verbatim>\<open>arrayIndex\<close> (the series, possibly missing) and \<^verbatim>\<open>index\<close>.\<close>

record hit =
  h_fields :: "(string \<times> int) list"
  arrayIndex :: "int option"
  index :: int

text \<open>
  Modelled from the spec: the point handle built by \<^verbatim>\<open>generatePoint\<close> (inherited from
  \<^verbatim>\<open>AbstractChart\<close>, which is not among the sources). A handle owns the visual
  attributes it was created with; an attribute that was not passed is absent.
  Its \<^verbatim>\<open>update\<close> overwrites exactly the attributes it is given.
\<close>

record point =
  p_data :: "jsval option"
  p_color :: "string option"
  p_radius :: "int option"
  p_fillOpacity :: "rat option"
  p_strokeWidth :: "int option"

datatype orientation = Horizontal | Vertical

record rug =
  r_data :: jsval
  r_orientation :: orientation

datatype handler = OnPointHandler | OnLeaveHandler

record delaunay =
  d_points :: jsval
  d_nested :: bool
  d_onPoint :: handler
  d_onLeave :: handler

text \<open>Calls that leave the class, in the order they are made: calls on the tooltip, on a
  point handle, and the mounting of collaborators into the drawing container.\<close>

datatype effect =
    RugMount orientation
  | TooltipUpdateLegend
  | TooltipUpdateData "hit list"
  | TooltipHide
  | PointMount nat nat
  | PointUpdate nat nat rat
  | DelaunayMount jsval
  | LegendMount
  | BrushMount bool

text \<open>The fields of a \<^verbatim>\<open>ScatterChart\<close>. The first five are inherited; \<open>tooltip\<close> tells
  whether a tooltip object is present; \<open>activePoint\<close> is the field \<^verbatim>\<open>_activePoint\<close>;
  \<open>trace\<close> logs the outgoing calls.\<close>

record chart =
  data :: jsval
  isArrayOfObjects :: bool
  colors :: "string list"
  tooltip :: bool
  brush :: bool
  points :: "point list list"
  delaunay :: "delaunay option"
  delaunayPoint :: "point option"
  sizeAccessor :: "jsval \<Rightarrow> int option"
  xRug :: "rug option"
  xRugParams :: "bool option"
  yRug :: "rug option"
  yRugParams :: "bool option"
  activePoint :: "int \<times> int"
  trace :: "effect list"

text \<open>A method either returns or throws; in both cases the object keeps the fields the
  method has written so far.\<close>

type_synonym outcome = "error option \<times> chart"

definition andThen :: "outcome \<Rightarrow> (chart \<Rightarrow> outcome) \<Rightarrow> outcome" where
  "andThen r f = (case r of (None, s) \<Rightarrow> f s | (Some e, s) \<Rightarrow> (Some e, s))"

text \<open>Reading \<^verbatim>\<open>xs[i]\<close>: outside the array (negative indices included) the value is
  \<^verbatim>\<open>undefined\<close>.\<close>

definition nth_js :: "'a list \<Rightarrow> int \<Rightarrow> 'a option" where
  "nth_js xs i = (if 0 \<le> i \<and> i < int (length xs) then Some (xs ! nat i) else None)"

definition truthy :: "bool option \<Rightarrow> bool" where
  "truthy b = (b = Some True)"

section \<open>The active point\<close>

text \<open>\<^verbatim>\<open>this.points[i][j].update({ fillOpacity: v })\<close>: a missing row or a missing handle
  makes the expression throw.\<close>

definition update_point :: "int \<Rightarrow> int \<Rightarrow> rat \<Rightarrow> chart \<Rightarrow> outcome" where
  "update_point i j v s =
     (case nth_js (points s) i of
        None \<Rightarrow> (Some TypeError, s)
      | Some row \<Rightarrow>
          (case nth_js row j of
             None \<Rightarrow> (Some TypeError, s)
           | Some p \<Rightarrow>
               (None, s\<lparr>points := (points s)[nat i := row[nat j := p\<lparr>p_fillOpacity := Some v\<rparr>]],
                         trace := trace s @ [PointUpdate (nat i) (nat j) v]\<rparr>)))"

text \<open>The three statements of the setter \<^verbatim>\<open>set activePoint ({ i, j })\<close>.\<close>

definition deset :: "chart \<Rightarrow> outcome" where
  "deset s =
     (if fst (activePoint s) \<noteq> -1 \<and> snd (activePoint s) \<noteq> -1
      then update_point (fst (activePoint s)) (snd (activePoint s)) (3/10) s
      else (None, s))"

definition assign :: "int \<Rightarrow> int \<Rightarrow> chart \<Rightarrow> chart" where
  "assign i j s = s\<lparr>activePoint := (i, j)\<rparr>"

definition activate :: "int \<Rightarrow> int \<Rightarrow> chart \<Rightarrow> outcome" where
  "activate i j s = (if i \<noteq> -1 \<and> j \<noteq> -1 then update_point i j 1 s else (None, s))"

definition set_activePoint :: "int \<Rightarrow> int \<Rightarrow> chart \<Rightarrow> outcome" where
  "set_activePoint i j s = andThen (deset s) (\<lambda>s1. activate i j (assign i j s1))"

text \<open>The handler returned by \<^verbatim>\<open>onPointHandler()\<close>. Its argument is an array of which it
  takes the first element; on an empty array \<^verbatim>\<open>point\<close> is \<^verbatim>\<open>undefined\<close> and reading
  \<^verbatim>\<open>point.arrayIndex\<close> throws.\<close>

definition target :: "hit \<Rightarrow> int \<times> int" where
  "target p = ((case arrayIndex p of None \<Rightarrow> 0 | Some a \<Rightarrow> a), index p)"

fun onPointHandler :: "hit list \<Rightarrow> chart \<Rightarrow> outcome" where
  "onPointHandler [] s = (Some TypeError, s)"
| "onPointHandler (p # ps) s =
     andThen (set_activePoint (fst (target p)) (snd (target p)) s)
       (\<lambda>s1. if \<not> tooltip s1 then (None, s1)
              else (None, s1\<lparr>trace := trace s1 @ [TooltipUpdateData [p]]\<rparr>))"

text \<open>The handler returned by \<^verbatim>\<open>onLeaveHandler()\<close>.\<close>

definition onLeaveHandler :: "chart \<Rightarrow> outcome" where
  "onLeaveHandler s =
     andThen (set_activePoint (-1) (-1) s)
       (\<lambda>s1. if tooltip s1 then (None, s1\<lparr>trace := trace s1 @ [TooltipHide]\<rparr>)
              else (None, s1))"

section \<open>Mounting\<close>

definition mountRugs :: "bool option \<Rightarrow> bool option \<Rightarrow> chart \<Rightarrow> chart" where
  "mountRugs xr yr s =
     (let s1 = (if truthy xr
                then s\<lparr>xRug := Some \<lparr>r_data = data s, r_orientation = Horizontal\<rparr>,
                       trace := trace s @ [RugMount Horizontal]\<rparr>
                else s)
      in if truthy yr
         then s1\<lparr>yRug := Some \<lparr>r_data = data s1, r_orientation = Vertical\<rparr>,
                 trace := trace s1 @ [RugMount Vertical]\<rparr>
         else s1)"

text \<open>The tooltip block of \<^verbatim>\<open>redraw\<close>.\<close>

definition setTooltipType :: "chart \<Rightarrow> chart" where
  "setTooltipType s =
     (if tooltip s then s\<lparr>trace := trace s @ [TooltipUpdateLegend, TooltipHide]\<rparr> else s)"

definition mk_point :: "chart \<Rightarrow> nat \<Rightarrow> jsval \<Rightarrow> point" where
  "mk_point s i d =
     \<lparr>p_data = Some d, p_color = nth_js (colors s) (int i), p_radius = sizeAccessor s d,
      p_fillOpacity = Some (3/10), p_strokeWidth = Some 1\<rparr>"

text \<open>The outer \<^verbatim>\<open>map\<close> of \<^verbatim>\<open>mountPoints\<close> over the series from position \<open>i\<close> on: the rows
  of handles, the mounts made, and the exception if a series is not an array (then
  \<^verbatim>\<open>pointSet.map\<close> is not a function).\<close>

fun mountSets :: "chart \<Rightarrow> nat \<Rightarrow> jsval list \<Rightarrow> error option \<times> point list list \<times> effect list" where
  "mountSets s i [] = (None, [], [])"
| "mountSets s i (Obj fs # rest) = (Some TypeError, [], [])"
| "mountSets s i (Arr ds # rest) =
     (case mountSets s (Suc i) rest of
        (e, rows, tr) \<Rightarrow>
          (e, map (mk_point s i) ds # rows, map (PointMount i) [0..<length ds] @ tr))"

definition mountPoints :: "chart \<Rightarrow> outcome" where
  "mountPoints s =
     (case data s of
        Obj fs \<Rightarrow> (Some TypeError, s)
      | Arr sets \<Rightarrow>
          (case mountSets s 0 sets of
             (None, rows, tr) \<Rightarrow> (None, s\<lparr>points := rows, trace := trace s @ tr\<rparr>)
           | (Some e, rows, tr) \<Rightarrow> (Some e, s\<lparr>trace := trace s @ tr\<rparr>)))"

definition mountDelaunay :: "chart \<Rightarrow> chart" where
  "mountDelaunay s =
     s\<lparr>delaunayPoint := Some \<lparr>p_data = None, p_color = None, p_radius = Some 3,
                               p_fillOpacity = None, p_strokeWidth = None\<rparr>,
       delaunay := Some \<lparr>d_points = data s, d_nested = True,
                         d_onPoint = OnPointHandler, d_onLeave = OnLeaveHandler\<rparr>,
       trace := trace s @ [DelaunayMount (data s)]\<rparr>"

text \<open>\<^verbatim>\<open>mountLegend\<close> and \<^verbatim>\<open>mountBrush\<close> are inherited; only the calls are recorded.\<close>

definition mountLegend :: "chart \<Rightarrow> chart" where
  "mountLegend s = s\<lparr>trace := trace s @ [LegendMount]\<rparr>"

definition mountBrush :: "bool \<Rightarrow> chart \<Rightarrow> chart" where
  "mountBrush b s = s\<lparr>trace := trace s @ [BrushMount b]\<rparr>"

definition redraw :: "chart \<Rightarrow> outcome" where
  "redraw s =
     andThen (mountPoints (setTooltipType (mountRugs (xRugParams s) (yRugParams s) s)))
       (\<lambda>s1. let s2 = mountDelaunay s1; s3 = mountLegend s2 in (None, mountBrush (brush s3) s3))"

definition normalizeData :: "chart \<Rightarrow> chart" where
  "normalizeData s = (if isArrayOfObjects s then s\<lparr>data := Arr [data s]\<rparr> else s)"

section \<open>Construction\<close>

datatype accessor = Field string | Func "jsval \<Rightarrow> int option"

record args =
  a_data :: jsval
  a_colors :: "string list"
  a_tooltip :: bool
  a_brush :: bool
  a_sizeAccessor :: "accessor option"
  a_xRug :: "bool option"
  a_yRug :: "bool option"

fun is_record :: "jsval \<Rightarrow> bool" where
  "is_record (Obj fs) = True"
| "is_record (Arr xs) = False"

text \<open>Modelled from the spec: the shape flag \<^verbatim>\<open>isArrayOfObjects\<close>, which \<^verbatim>\<open>AbstractChart\<close>
  (not among the sources) derives from the data: the input is a single flat sequence of
  records, not grouped into series.\<close>

definition flat :: "jsval \<Rightarrow> bool" where
  "flat d = (case d of Obj fs \<Rightarrow> False | Arr xs \<Rightarrow> list_all is_record xs)"

text \<open>Modelled from the spec: \<^verbatim>\<open>makeAccessorFunction\<close> of \<^verbatim>\<open>misc/utility\<close> (not among the
  sources): a field name stands for the function reading that field, a function for
  itself.\<close>

fun makeAccessorFunction :: "accessor \<Rightarrow> jsval \<Rightarrow> int option" where
  "makeAccessorFunction (Func f) = f"
| "makeAccessorFunction (Field n) = (\<lambda>d. case d of Obj fs \<Rightarrow> map_of fs n | Arr xs \<Rightarrow> None)"

text \<open>A function is truthy; a string is truthy unless it is empty.\<close>

fun truthy_accessor :: "accessor option \<Rightarrow> bool" where
  "truthy_accessor None = False"
| "truthy_accessor (Some (Func f)) = True"
| "truthy_accessor (Some (Field n)) = (n \<noteq> [])"

text \<open>Modelled from the spec: the constructor of \<^verbatim>\<open>AbstractChart\<close> (\<^verbatim>\<open>super(args)\<close>), which
  is not among the sources. It stores the inherited fields, detects the shape of the data
  and normalizes the data once, before any other component consumes it. The fields of
  \<^verbatim>\<open>ScatterChart\<close> do not exist yet at that time; they are given their initial values
  by \<open>constructor\<close>.\<close>

definition super_init :: "args \<Rightarrow> chart" where
  "super_init a =
     normalizeData
       \<lparr>data = a_data a, isArrayOfObjects = flat (a_data a), colors = a_colors a,
        tooltip = a_tooltip a, brush = a_brush a, points = [], delaunay = None,
        delaunayPoint = None, sizeAccessor = (\<lambda>d. None), xRug = None, xRugParams = None,
        yRug = None, yRugParams = None, activePoint = (-1, -1), trace = []\<rparr>"

text \<open>The class field initialisers, which run when \<^verbatim>\<open>super(args)\<close> has returned.\<close>

definition field_init :: "chart \<Rightarrow> chart" where
  "field_init s =
     s\<lparr>points := [], delaunay := None, delaunayPoint := None, sizeAccessor := (\<lambda>d. None),
       xRug := None, xRugParams := None, yRug := None, yRugParams := None,
       activePoint := (-1, -1)\<rparr>"

text \<open>The assignments in the body of the constructor of \<^verbatim>\<open>ScatterChart\<close>.\<close>

definition configure :: "args \<Rightarrow> chart \<Rightarrow> chart" where
  "configure a s0 =
     (let s1 = s0\<lparr>xRugParams := (case a_xRug a of None \<Rightarrow> xRugParams s0 | Some b \<Rightarrow> Some b)\<rparr>;
          s2 = s1\<lparr>yRugParams := (case a_yRug a of None \<Rightarrow> yRugParams s1 | Some b \<Rightarrow> Some b)\<rparr>
      in s2\<lparr>sizeAccessor :=
              (if truthy_accessor (a_sizeAccessor a)
               then makeAccessorFunction (the (a_sizeAccessor a))
               else (\<lambda>d. Some 3))\<rparr>)"

definition constructor :: "args \<Rightarrow> outcome" where
  "constructor a = redraw (configure a (field_init (super_init a)))"

section \<open>Runs of the state machine\<close>

text \<open>What can happen to a mounted chart: \<^verbatim>\<open>redraw()\<close> is called, the public field
  \<^verbatim>\<open>data\<close> is assigned, or the triangulation calls one of the two handlers.\<close>

datatype event = Redraw | SetData jsval | OnPoint "hit list" | OnLeave

fun step :: "event \<Rightarrow> chart \<Rightarrow> outcome" where
  "step Redraw s = redraw s"
| "step (SetData d) s = (None, s\<lparr>data := d\<rparr>)"
| "step (OnPoint ps) s = onPointHandler ps s"
| "step OnLeave s = onLeaveHandler s"

text \<open>An exception thrown by one call is reported to the host; the object stays as the
  call left it and receives the next event.\<close>

fun run :: "event list \<Rightarrow> chart \<Rightarrow> error option list \<times> chart" where
  "run [] s = ([], s)"
| "run (ev # evs) s =
     (case step ev s of (e, s1) \<Rightarrow> (case run evs s1 of (es, s2) \<Rightarrow> (e # es, s2)))"

text \<open>Modelled from the spec: the positions the Coordinate Index (\<^verbatim>\<open>components/delaunay\<close>,
  not among the sources) resolves to are array positions: a series index, if present, and
  a point index, both at least 0.\<close>

definition wf_hit :: "hit \<Rightarrow> bool" where
  "wf_hit p = (0 \<le> index p \<and> (case arrayIndex p of None \<Rightarrow> True | Some a \<Rightarrow> 0 \<le> a))"

fun wf_event :: "event \<Rightarrow> bool" where
  "wf_event (OnPoint ps) = list_all wf_hit ps"
| "wf_event ev = True"

inductive reachable :: "chart \<Rightarrow> bool" where
  r_start: "constructor a = (None, s) \<Longrightarrow> reachable s"
| r_step: "reachable s \<Longrightarrow> wf_event ev \<Longrightarrow> reachable (snd (step ev s))"

section \<open>Observations\<close>

definition in_range :: "point list list \<Rightarrow> int \<times> int \<Rightarrow> bool" where
  "in_range ps ij =
     (case nth_js ps (fst ij) of None \<Rightarrow> False | Some row \<Rightarrow> nth_js row (snd ij) \<noteq> None)"

text \<open>The positions of the handles that carry the emphasized opacity.\<close>

definition emphasized :: "chart \<Rightarrow> (nat \<times> nat) list" where
  "emphasized s =
     concat (map (\<lambda>a. map (\<lambda>b. (a, b))
                        (filter (\<lambda>b. p_fillOpacity (points s ! a ! b) = Some 1)
                           [0..<length (points s ! a)]))
               [0..<length (points s)])"

definition opacity :: "chart \<Rightarrow> nat \<Rightarrow> nat \<Rightarrow> rat option" where
  "opacity s a b = p_fillOpacity (points s ! a ! b)"

definition idle :: "chart \<Rightarrow> bool" where
  "idle s = (activePoint s = (-1, -1))"

definition half_set :: "int \<times> int \<Rightarrow> bool" where
  "half_set ij = ((fst ij = -1) \<noteq> (snd ij = -1))"

definition is_tooltip_call :: "effect \<Rightarrow> bool" where
  "is_tooltip_call e =
     (case e of TooltipUpdateLegend \<Rightarrow> True | TooltipUpdateData ps \<Rightarrow> True
      | TooltipHide \<Rightarrow> True | _ \<Rightarrow> False)"

text \<open>The handle array after \<^verbatim>\<open>points[i][j].update({ fillOpacity: v })\<close>.\<close>

definition restyle :: "point list list \<Rightarrow> int \<Rightarrow> int \<Rightarrow> rat \<Rightarrow> point list list" where
  "restyle ps i j v = ps[nat i := (ps ! nat i)[nat j := (ps ! nat i ! nat j)\<lparr>p_fillOpacity := Some v\<rparr>]]"

text \<open>No handle but the active one carries the emphasized opacity.\<close>

definition only_active_emphasized :: "chart \<Rightarrow> bool" where
  "only_active_emphasized s =
     (\<forall>ab \<in> set (emphasized s). activePoint s = (int (fst ab), int (snd ab)))"

text \<open>The reference is the sentinel pair or a pair of array positions.\<close>

definition well_set :: "int \<times> int \<Rightarrow> bool" where
  "well_set ij = (ij = (-1, -1) \<or> (0 \<le> fst ij \<and> 0 \<le> snd ij))"

text \<open>The data is an array of arrays: it is grouped into series.\<close>

definition grouped :: "jsval \<Rightarrow> bool" where
  "grouped d = (case d of Obj fs \<Rightarrow> False | Arr xs \<Rightarrow> list_all (\<lambda>x. \<not> is_record x) xs)"

fun elems :: "jsval \<Rightarrow> jsval list" where
  "elems (Arr ds) = ds"
| "elems (Obj fs) = []"

text \<open>The registry and the mounts that \<^verbatim>\<open>mountPoints\<close> is expected to produce from
  grouped data: one row of handles per series, one handle per record, in order.\<close>

fun expected_points :: "chart \<Rightarrow> nat \<Rightarrow> jsval list \<Rightarrow> point list list" where
  "expected_points s i [] = []"
| "expected_points s i (d # rest) = map (mk_point s i) (elems d) # expected_points s (Suc i) rest"

fun expected_mounts :: "nat \<Rightarrow> jsval list \<Rightarrow> effect list" where
  "expected_mounts i [] = []"
| "expected_mounts i (d # rest) =
     map (PointMount i) [0..<length (elems d)] @ expected_mounts (Suc i) rest"

definition rug_calls :: "chart \<Rightarrow> effect list" where
  "rug_calls s = (if truthy (xRugParams s) then [RugMount Horizontal] else []) @
                 (if truthy (yRugParams s) then [RugMount Vertical] else [])"

definition tooltip_calls :: "chart \<Rightarrow> effect list" where
  "tooltip_calls s = (if tooltip s then [TooltipUpdateLegend, TooltipHide] else [])"

text \<open>The chart when \<^verbatim>\<open>redraw\<close> reaches \<^verbatim>\<open>mountPoints\<close>.\<close>

definition prepared :: "chart \<Rightarrow> chart" where
  "prepared s = setTooltipType (mountRugs (xRugParams s) (yRugParams s) s)"

section \<open>A chart to run\<close>

text \<open>Two series, \<open>[(0,0), (10,10)]\<close> and \<open>[(0,10)]\<close>, with a tooltip.\<close>

definition rec0 :: jsval where "rec0 = Obj [(''x'', 0), (''y'', 0)]"
definition rec1 :: jsval where "rec1 = Obj [(''x'', 10), (''y'', 10)]"
definition rec2 :: jsval where "rec2 = Obj [(''x'', 0), (''y'', 10)]"

definition demo_args :: args where
  "demo_args =
     \<lparr>a_data = Arr [Arr [rec0, rec1], Arr [rec2]], a_colors = [''red'', ''blue''],
      a_tooltip = True, a_brush = False, a_sizeAccessor = None, a_xRug = None, a_yRug = None\<rparr>"

definition demo_chart :: chart where
  "demo_chart = snd (constructor demo_args)"

definition hit_at :: "int \<Rightarrow> int \<Rightarrow> hit" where
  "hit_at i j = \<lparr>h_fields = [], arrayIndex = Some i, index = j\<rparr>"

text \<open>A hit without a series index, and the first series given flat.\<close>

definition hit_noseries :: "int \<Rightarrow> hit" where
  "hit_noseries j = \<lparr>h_fields = [], arrayIndex = None, index = j\<rparr>"

definition flat_args :: args where
  "flat_args = demo_args\<lparr>a_data := Arr [rec0, rec1]\<rparr>"

text \<open>The states the setter passes through when none of its statements throws: before,
  after the de-set, after the assignment, after the activation.\<close>

definition setter_states :: "int \<Rightarrow> int \<Rightarrow> chart \<Rightarrow> chart list" where
  "setter_states i j s =
     [s, snd (deset s), assign i j (snd (deset s)),
      snd (activate i j (assign i j (snd (deset s))))]"

text \<open>The chart after the pointer has resolved to the first point of the first series.\<close>

definition demo_highlighted :: chart where
  "demo_highlighted = snd (onPointHandler [hit_at 0 0] demo_chart)"

text \<open>The chart after the second point of the first series was highlighted, the data was
  replaced by a single record, and \<^verbatim>\<open>redraw()\<close> was called.\<close>

definition demo_stale :: chart where
  "demo_stale = snd (run [OnPoint [hit_at 0 1], SetData (Arr [Arr [rec0]]), Redraw] demo_chart)"

text \<open>The same chart constructed without a tooltip.\<close>

definition demo_bare :: chart where
  "demo_bare = snd (constructor (demo_args\<lparr>a_tooltip := False\<rparr>))"

text \<open>Two charts agree on everything the outcome of a call depends on.\<close>

definition same_core :: "chart \<Rightarrow> chart \<Rightarrow> bool" where
  "same_core s t =
     (data s = data t \<and> points s = points t \<and> activePoint s = activePoint t \<and>
      colors s = colors t \<and> sizeAccessor s = sizeAccessor t)"

text \<open>The calls made on the tooltip so far.\<close>

definition tooltip_trace :: "chart \<Rightarrow> effect list" where
  "tooltip_trace s = filter is_tooltip_call (trace s)"

section \<open>Basic facts\<close>


lemma andThen_None [simp]: "andThen (None, s) f = f s"
  by (simp add: andThen_def)

lemma andThen_Some [simp]: "andThen (Some e, s) f = (Some e, s)"
  by (simp add: andThen_def)

lemma in_range_iff:
  "in_range ps (i, j) \<longleftrightarrow> 0 \<le> i \<and> nat i < length ps \<and> 0 \<le> j \<and> nat j < length (ps ! nat i)"
  by (auto simp: in_range_def nth_js_def split: option.splits)

lemma update_point_eq:
  "update_point i j v s =
     (if in_range (points s) (i, j)
      then (None, s\<lparr>points := restyle (points s) i j v,
                     trace := trace s @ [PointUpdate (nat i) (nat j) v]\<rparr>)
      else (Some TypeError, s))"
  by (auto simp: update_point_def in_range_def restyle_def nth_js_def split: option.splits)

lemma length_restyle [simp]: "length (restyle ps i j v) = length ps"
  by (simp add: restyle_def)

lemma length_row_restyle [simp]: "length (restyle ps i j v ! a) = length (ps ! a)"
  by (cases "nat i < length ps") (auto simp: restyle_def nth_list_update list_update_beyond)

lemma in_range_restyle [simp]: "in_range (restyle ps i j v) kl = in_range ps kl"
  by (cases kl) (simp add: in_range_iff)

lemma opacity_restyle:
  "a < length ps \<Longrightarrow> b < length (ps ! a) \<Longrightarrow>
   p_fillOpacity (restyle ps i j v ! a ! b) =
     (if a = nat i \<and> b = nat j then Some v else p_fillOpacity (ps ! a ! b))"
  by (cases "nat i < length ps") (auto simp: restyle_def nth_list_update)

lemma mem_emphasized:
  "ab \<in> set (emphasized s) \<longleftrightarrow>
     fst ab < length (points s) \<and> snd ab < length (points s ! fst ab) \<and>
     p_fillOpacity (points s ! fst ab ! snd ab) = Some 1"
  by (cases ab) (auto simp: emphasized_def)

lemma distinct_pairs:
  "distinct xs \<Longrightarrow> (\<And>a. distinct (f a)) \<Longrightarrow>
   distinct (concat (map (\<lambda>a. map (Pair a) (f a)) xs))"
  by (induction xs) (auto simp: distinct_map inj_on_def)

lemma distinct_emphasized: "distinct (emphasized s)"
  unfolding emphasized_def by (rule distinct_pairs) simp_all

lemma emphasized_Nil: "set (emphasized s) = {} \<Longrightarrow> emphasized s = []"
  by simp

lemma emphasized_single:
  assumes "set (emphasized s) = {ab}"
  shows "emphasized s = [ab]"
proof -
  have "distinct (emphasized s)" by (rule distinct_emphasized)
  with assms have "length (emphasized s) = 1"
    by (metis distinct_card card_1_singleton_iff is_singletonI is_singleton_altdef)
  with assms show ?thesis
    by (cases "emphasized s") auto
qed


lemma set_emphasized_dim:
  assumes "in_range (points s) (i, j)" and "points s' = restyle (points s) i j (3/10)"
  shows "set (emphasized s') = set (emphasized s) - {(nat i, nat j)}"
proof -
  have "ab \<in> set (emphasized s') \<longleftrightarrow> ab \<in> set (emphasized s) \<and> ab \<noteq> (nat i, nat j)" for ab
    using assms by (cases ab) (auto simp: mem_emphasized opacity_restyle in_range_iff split: if_splits)
  then show ?thesis by auto
qed

lemma set_emphasized_on:
  assumes "in_range (points s) (i, j)" and "points s' = restyle (points s) i j 1"
  shows "set (emphasized s') = insert (nat i, nat j) (set (emphasized s))"
proof -
  have "ab \<in> set (emphasized s') \<longleftrightarrow> ab \<in> set (emphasized s) \<or> ab = (nat i, nat j)" for ab
    using assms by (cases ab) (auto simp: mem_emphasized opacity_restyle in_range_iff split: if_splits)
  then show ?thesis by auto
qed

lemma emphasized_cong: "points s' = points s \<Longrightarrow> emphasized s' = emphasized s"
  by (simp add: emphasized_def)

lemma no_emphasized_negative:
  assumes "only_active_emphasized s" and "fst (activePoint s) < 0 \<or> snd (activePoint s) < 0"
  shows "emphasized s = []"
proof (cases "emphasized s")
  case Nil
  then show ?thesis .
next
  case (Cons ab rest)
  then have "ab \<in> set (emphasized s)" by simp
  with assms(1) have "activePoint s = (int (fst ab), int (snd ab))"
    unfolding only_active_emphasized_def by blast
  with assms(2) show ?thesis by simp
qed

lemma no_emphasized_out_of_range:
  assumes "only_active_emphasized s" and "\<not> in_range (points s) (activePoint s)"
  shows "emphasized s = []"
proof (cases "emphasized s")
  case Nil
  then show ?thesis .
next
  case (Cons ab rest)
  then have m: "ab \<in> set (emphasized s)" by simp
  with assms(1) have "activePoint s = (int (fst ab), int (snd ab))"
    unfolding only_active_emphasized_def by blast
  moreover from m have "in_range (points s) (int (fst ab), int (snd ab))"
    by (simp add: mem_emphasized in_range_iff)
  ultimately show ?thesis using assms(2) by simp
qed

text \<open>What the first statement of the setter does.\<close>

lemma deset_skip:
  "fst (activePoint s) = -1 \<or> snd (activePoint s) = -1 \<Longrightarrow> deset s = (None, s)"
  by (auto simp: deset_def)

lemma deset_dim:
  "fst (activePoint s) \<noteq> -1 \<Longrightarrow> snd (activePoint s) \<noteq> -1 \<Longrightarrow> in_range (points s) (activePoint s) \<Longrightarrow>
   deset s = (None, s\<lparr>points := restyle (points s) (fst (activePoint s)) (snd (activePoint s)) (3/10),
                     trace := trace s @ [PointUpdate (nat (fst (activePoint s))) (nat (snd (activePoint s))) (3/10)]\<rparr>)"
  by (simp add: deset_def update_point_eq)

lemma deset_throw:
  "fst (activePoint s) \<noteq> -1 \<Longrightarrow> snd (activePoint s) \<noteq> -1 \<Longrightarrow> \<not> in_range (points s) (activePoint s) \<Longrightarrow>
   deset s = (Some TypeError, s)"
  by (simp add: deset_def update_point_eq)

lemma deset_Some: "fst (deset s) \<noteq> None \<Longrightarrow> deset s = (Some TypeError, s)"
  by (simp add: deset_def update_point_eq split: if_splits)

lemma emphasized_subset_active:
  assumes "only_active_emphasized s"
  shows "set (emphasized s) \<subseteq> {(nat (fst (activePoint s)), nat (snd (activePoint s)))}"
proof
  fix ab assume "ab \<in> set (emphasized s)"
  with assms have "activePoint s = (int (fst ab), int (snd ab))"
    unfolding only_active_emphasized_def by blast
  then have "nat (fst (activePoint s)) = fst ab" "nat (snd (activePoint s)) = snd ab"
    by simp_all
  then show "ab \<in> {(nat (fst (activePoint s)), nat (snd (activePoint s)))}"
    by (cases ab) simp
qed

lemma deset_None_in_range:
  "fst (deset s) = None \<Longrightarrow> fst (activePoint s) \<noteq> -1 \<Longrightarrow> snd (activePoint s) \<noteq> -1 \<Longrightarrow>
   in_range (points s) (activePoint s)"
  by (rule ccontr) (simp add: deset_throw)

lemma deset_None_emphasized:
  assumes "only_active_emphasized s" and "fst (deset s) = None"
  shows "emphasized (snd (deset s)) = []"
proof (cases "fst (activePoint s) = -1 \<or> snd (activePoint s) = -1")
  case True
  then have "fst (activePoint s) < 0 \<or> snd (activePoint s) < 0" by auto
  with assms(1) have "emphasized s = []" by (rule no_emphasized_negative)
  moreover from True have "deset s = (None, s)" by (rule deset_skip)
  ultimately show ?thesis by simp
next
  case False
  let ?i = "fst (activePoint s)" and ?j = "snd (activePoint s)"
  from False have ne: "?i \<noteq> -1" "?j \<noteq> -1" by simp_all
  from deset_None_in_range [OF assms(2) ne] have r: "in_range (points s) (?i, ?j)" by simp
  from deset_dim [OF ne deset_None_in_range [OF assms(2) ne]]
  have p: "points (snd (deset s)) = restyle (points s) ?i ?j (3/10)" by simp
  have "set (emphasized (snd (deset s))) = set (emphasized s) - {(nat ?i, nat ?j)}"
    by (rule set_emphasized_dim [OF r p])
  also have "\<dots> = {}"
    using emphasized_subset_active [OF assms(1)] by (simp only: Diff_eq_empty_iff)
  finally show ?thesis by simp
qed


lemma deset_keeps:
  "activePoint (snd (deset s)) = activePoint s"
  "tooltip (snd (deset s)) = tooltip s"
  "data (snd (deset s)) = data s"
  "in_range (points (snd (deset s))) kl = in_range (points s) kl"
  by (simp_all add: deset_def update_point_eq)

lemma activate_skip: "i = -1 \<or> j = -1 \<Longrightarrow> activate i j s = (None, s)"
  by (auto simp: activate_def)

lemma activate_on:
  "i \<noteq> -1 \<Longrightarrow> j \<noteq> -1 \<Longrightarrow> in_range (points s) (i, j) \<Longrightarrow>
   activate i j s = (None, s\<lparr>points := restyle (points s) i j 1,
                              trace := trace s @ [PointUpdate (nat i) (nat j) 1]\<rparr>)"
  by (simp add: activate_def update_point_eq)

lemma activate_throw:
  "i \<noteq> -1 \<Longrightarrow> j \<noteq> -1 \<Longrightarrow> \<not> in_range (points s) (i, j) \<Longrightarrow>
   activate i j s = (Some TypeError, s)"
  by (simp add: activate_def update_point_eq)

lemma activate_keeps:
  "activePoint (snd (activate i j s)) = activePoint s"
  "tooltip (snd (activate i j s)) = tooltip s"
  "data (snd (activate i j s)) = data s"
  "in_range (points (snd (activate i j s))) kl = in_range (points s) kl"
  by (simp_all add: activate_def update_point_eq)

lemma set_activePoint_throw:
  "fst (deset s) \<noteq> None \<Longrightarrow> set_activePoint i j s = (Some TypeError, s)"
  by (simp add: set_activePoint_def deset_Some)

lemma set_activePoint_next:
  "fst (deset s) = None \<Longrightarrow>
   set_activePoint i j s = activate i j (assign i j (snd (deset s)))"
  by (cases "deset s") (simp add: set_activePoint_def)

lemma set_activePoint_active:
  "activePoint (snd (set_activePoint i j s)) =
     (if fst (deset s) = None then (i, j) else activePoint s)"
  by (simp add: set_activePoint_throw set_activePoint_next activate_keeps assign_def)

lemma set_activePoint_keeps:
  "tooltip (snd (set_activePoint i j s)) = tooltip s"
  "data (snd (set_activePoint i j s)) = data s"
  "in_range (points (snd (set_activePoint i j s))) kl = in_range (points s) kl"
  by (cases "fst (deset s) = None";
      simp add: set_activePoint_throw set_activePoint_next activate_keeps deset_keeps assign_def)+

lemma set_activePoint_invariant:
  assumes "only_active_emphasized s"
  shows "only_active_emphasized (snd (set_activePoint i j s))"
proof (cases "fst (deset s) = None")
  case False
  with assms show ?thesis by (simp add: set_activePoint_throw)
next
  case True
  let ?s2 = "assign i j (snd (deset s))"
  have e2: "emphasized ?s2 = []"
    using deset_None_emphasized [OF assms True] by (simp add: assign_def emphasized_def)
  have a2: "activePoint ?s2 = (i, j)" by (simp add: assign_def)
  have step: "set_activePoint i j s = activate i j ?s2"
    using True by (rule set_activePoint_next)
  show ?thesis
  proof (cases "i \<noteq> -1 \<and> j \<noteq> -1 \<and> in_range (points ?s2) (i, j)")
    case False
    then have "activate i j ?s2 = (None, ?s2) \<or> activate i j ?s2 = (Some TypeError, ?s2)"
      using activate_skip [of i j ?s2] activate_throw [of i j ?s2] by auto
    then have "emphasized (snd (activate i j ?s2)) = []"
      using e2 by auto
    then show ?thesis by (simp add: step only_active_emphasized_def)
  next
    case on: True
    let ?s3 = "snd (activate i j ?s2)"
    from on have r: "in_range (points ?s2) (i, j)" by simp
    from on have "points ?s3 = restyle (points ?s2) i j 1" by (simp add: activate_on)
    from set_emphasized_on [OF r this] e2
    have "set (emphasized ?s3) = {(nat i, nat j)}" by simp
    moreover have "activePoint ?s3 = (i, j)" by (simp add: activate_keeps a2)
    moreover from r have "0 \<le> i" "0 \<le> j" by (simp_all add: in_range_iff)
    ultimately show ?thesis by (simp add: step only_active_emphasized_def)
  qed
qed

lemma set_activePoint_well_set:
  assumes "well_set (activePoint s)" and "well_set (i, j)"
  shows "well_set (activePoint (snd (set_activePoint i j s)))"
  using assms by (simp add: set_activePoint_active)


lemma only_active_emphasized_cong:
  "points s' = points s \<Longrightarrow> activePoint s' = activePoint s \<Longrightarrow>
   only_active_emphasized s' = only_active_emphasized s"
  by (simp add: only_active_emphasized_def emphasized_def)

lemma onPoint_fst:
  "fst (onPointHandler (p # ps) s) = fst (set_activePoint (fst (target p)) (snd (target p)) s)"
  by (cases "set_activePoint (fst (target p)) (snd (target p)) s"; cases "fst (set_activePoint (fst (target p)) (snd (target p)) s)")
     (simp_all)

lemma onPoint_keeps:
  "points (snd (onPointHandler (p # ps) s)) = points (snd (set_activePoint (fst (target p)) (snd (target p)) s))"
  "activePoint (snd (onPointHandler (p # ps) s)) = activePoint (snd (set_activePoint (fst (target p)) (snd (target p)) s))"
  "tooltip (snd (onPointHandler (p # ps) s)) = tooltip s"
  "data (snd (onPointHandler (p # ps) s)) = data s"
  by (cases "set_activePoint (fst (target p)) (snd (target p)) s"; cases "fst (set_activePoint (fst (target p)) (snd (target p)) s)";
      use set_activePoint_keeps [of "fst (target p)" "snd (target p)" s] in simp)+

declare onPointHandler.simps(2) [simp del]

lemma onLeave_fst:
  "fst (onLeaveHandler s) = fst (set_activePoint (-1) (-1) s)"
  by (cases "set_activePoint (-1) (-1) s"; cases "fst (set_activePoint (-1) (-1) s)")
     (simp_all add: onLeaveHandler_def)

lemma onLeave_keeps:
  "points (snd (onLeaveHandler s)) = points (snd (set_activePoint (-1) (-1) s))"
  "activePoint (snd (onLeaveHandler s)) = activePoint (snd (set_activePoint (-1) (-1) s))"
  "tooltip (snd (onLeaveHandler s)) = tooltip s"
  "data (snd (onLeaveHandler s)) = data s"
  by (cases "set_activePoint (-1) (-1) s"; cases "fst (set_activePoint (-1) (-1) s)";
      use set_activePoint_keeps [of "-1" "-1" s] in \<open>simp add: onLeaveHandler_def\<close>)+

lemma mountSets_grouped:
  "list_all (\<lambda>x. \<not> is_record x) sets \<Longrightarrow>
   mountSets s i sets = (None, expected_points s i sets, expected_mounts i sets)"
proof (induction sets arbitrary: i)
  case Nil
  show ?case by simp
next
  case (Cons d rest)
  then show ?case by (cases d) simp_all
qed

lemma mountSets_not_grouped:
  "\<not> list_all (\<lambda>x. \<not> is_record x) sets \<Longrightarrow> fst (mountSets s i sets) = Some TypeError"
proof (induction sets arbitrary: i)
  case Nil
  then show ?case by simp
next
  case (Cons d rest)
  show ?case
  proof (cases d)
    case (Obj fs)
    then show ?thesis by simp
  next
    case (Arr ds)
    with Cons.prems have "\<not> list_all (\<lambda>x. \<not> is_record x) rest" by simp
    then have "fst (mountSets s (Suc i) rest) = Some TypeError" by (rule Cons.IH)
    with Arr show ?thesis by (cases "mountSets s (Suc i) rest") simp
  qed
qed

lemma expected_points_dim:
  "row \<in> set (expected_points s i sets) \<Longrightarrow> p \<in> set row \<Longrightarrow> p_fillOpacity p = Some (3/10)"
  by (induction sets arbitrary: i) (auto simp: mk_point_def)

lemma emphasized_Nil_if_dim:
  assumes "\<And>row p. row \<in> set (points s) \<Longrightarrow> p \<in> set row \<Longrightarrow> p_fillOpacity p = Some (3/10)"
  shows "emphasized s = []"
proof (cases "emphasized s")
  case Nil
  then show ?thesis .
next
  case (Cons ab rest)
  then have "ab \<in> set (emphasized s)" by simp
  then have a: "fst ab < length (points s)" and b: "snd ab < length (points s ! fst ab)"
    and c: "p_fillOpacity (points s ! fst ab ! snd ab) = Some 1"
    by (simp_all add: mem_emphasized)
  from a have "points s ! fst ab \<in> set (points s)" by simp
  moreover from b have "points s ! fst ab ! snd ab \<in> set (points s ! fst ab)" by simp
  ultimately have "p_fillOpacity (points s ! fst ab ! snd ab) = Some (3/10)" by (rule assms)
  with c show ?thesis by simp
qed


lemma prepared_keeps:
  "data (prepared s) = data s"
  "points (prepared s) = points s"
  "colors (prepared s) = colors s"
  "sizeAccessor (prepared s) = sizeAccessor s"
  "activePoint (prepared s) = activePoint s"
  "tooltip (prepared s) = tooltip s"
  "brush (prepared s) = brush s"
  "trace (prepared s) = trace s @ rug_calls s @ tooltip_calls s"
  by (simp_all add: prepared_def setTooltipType_def mountRugs_def Let_def rug_calls_def tooltip_calls_def)

lemma mk_point_cong:
  "colors s' = colors s \<Longrightarrow> sizeAccessor s' = sizeAccessor s \<Longrightarrow> mk_point s' = mk_point s"
  by (intro ext) (simp add: mk_point_def)

lemma mountSets_cong:
  "colors s' = colors s \<Longrightarrow> sizeAccessor s' = sizeAccessor s \<Longrightarrow>
   mountSets s' i sets = mountSets s i sets"
proof (induction sets arbitrary: i)
  case Nil
  show ?case by simp
next
  case (Cons d rest)
  from Cons.prems have "mk_point s' = mk_point s" by (rule mk_point_cong)
  moreover from Cons.prems have "mountSets s' (Suc i) rest = mountSets s (Suc i) rest"
    by (rule Cons.IH)
  ultimately show ?case by (cases d) simp_all
qed

lemma expected_points_cong:
  "colors s' = colors s \<Longrightarrow> sizeAccessor s' = sizeAccessor s \<Longrightarrow>
   expected_points s' i sets = expected_points s i sets"
proof (induction sets arbitrary: i)
  case Nil
  show ?case by simp
next
  case (Cons d rest)
  from Cons.prems have "mk_point s' = mk_point s" by (rule mk_point_cong)
  moreover from Cons.prems have "expected_points s' (Suc i) rest = expected_points s (Suc i) rest"
    by (rule Cons.IH)
  ultimately show ?case by simp
qed

lemma mountPoints_grouped:
  assumes "grouped (data s)"
  shows "mountPoints s = (None, s\<lparr>points := expected_points s 0 (elems (data s)),
                                  trace := trace s @ expected_mounts 0 (elems (data s))\<rparr>)"
proof (cases "data s")
  case (Obj fs)
  with assms show ?thesis by (simp add: grouped_def)
next
  case (Arr sets)
  with assms have "list_all (\<lambda>x. \<not> is_record x) sets" by (simp add: grouped_def)
  then have "mountSets s 0 sets = (None, expected_points s 0 sets, expected_mounts 0 sets)"
    by (rule mountSets_grouped)
  with Arr show ?thesis by (simp add: mountPoints_def)
qed

lemma mountPoints_not_grouped:
  assumes "\<not> grouped (data s)"
  shows "fst (mountPoints s) = Some TypeError"
    and "points (snd (mountPoints s)) = points s"
    and "activePoint (snd (mountPoints s)) = activePoint s"
    and "data (snd (mountPoints s)) = data s"
    and "tooltip (snd (mountPoints s)) = tooltip s"
proof -
  have "fst (mountPoints s) = Some TypeError \<and> points (snd (mountPoints s)) = points s
      \<and> activePoint (snd (mountPoints s)) = activePoint s \<and> data (snd (mountPoints s)) = data s
      \<and> tooltip (snd (mountPoints s)) = tooltip s"
  proof (cases "data s")
    case (Obj fs)
    then show ?thesis by (simp add: mountPoints_def)
  next
    case (Arr sets)
    with assms have "\<not> list_all (\<lambda>x. \<not> is_record x) sets" by (simp add: grouped_def)
    then have "fst (mountSets s 0 sets) = Some TypeError" by (rule mountSets_not_grouped)
    with Arr show ?thesis
      by (cases "mountSets s 0 sets") (simp add: mountPoints_def)
  qed
  then show "fst (mountPoints s) = Some TypeError" "points (snd (mountPoints s)) = points s"
    "activePoint (snd (mountPoints s)) = activePoint s" "data (snd (mountPoints s)) = data s"
    "tooltip (snd (mountPoints s)) = tooltip s"
    by simp_all
qed

lemma redraw_prepared:
  "redraw s = andThen (mountPoints (prepared s))
       (\<lambda>s1. (None, mountBrush (brush s1) (mountLegend (mountDelaunay s1))))"
  by (simp add: redraw_def prepared_def Let_def mountLegend_def mountDelaunay_def)

lemma redraw_grouped:
  assumes "grouped (data s)"
  shows "fst (redraw s) = None"
    and "points (snd (redraw s)) = expected_points s 0 (elems (data s))"
    and "trace (snd (redraw s)) =
           trace s @ rug_calls s @ tooltip_calls s @ expected_mounts 0 (elems (data s)) @
           [DelaunayMount (data s), LegendMount, BrushMount (brush s)]"
    and "delaunay (snd (redraw s)) =
           Some \<lparr>d_points = data s, d_nested = True, d_onPoint = OnPointHandler,
                 d_onLeave = OnLeaveHandler\<rparr>"
proof -
  from assms have g: "grouped (data (prepared s))" by (simp add: prepared_keeps)
  have e: "expected_points (prepared s) 0 (elems (data s)) = expected_points s 0 (elems (data s))"
    by (rule expected_points_cong) (simp_all add: prepared_keeps)
  note r = redraw_prepared [of s] mountPoints_grouped [OF g]
  show "fst (redraw s) = None" by (simp add: r)
  show "points (snd (redraw s)) = expected_points s 0 (elems (data s))"
    by (simp add: r prepared_keeps e mountBrush_def mountLegend_def mountDelaunay_def)
  show "trace (snd (redraw s)) =
           trace s @ rug_calls s @ tooltip_calls s @ expected_mounts 0 (elems (data s)) @
           [DelaunayMount (data s), LegendMount, BrushMount (brush s)]"
    by (simp add: r prepared_keeps mountBrush_def mountLegend_def mountDelaunay_def)
  show "delaunay (snd (redraw s)) =
           Some \<lparr>d_points = data s, d_nested = True, d_onPoint = OnPointHandler,
                 d_onLeave = OnLeaveHandler\<rparr>"
    by (simp add: r prepared_keeps mountBrush_def mountLegend_def mountDelaunay_def)
qed

lemma redraw_not_grouped:
  assumes "\<not> grouped (data s)"
  shows "fst (redraw s) = Some TypeError" and "points (snd (redraw s)) = points s"
proof -
  from assms have g: "\<not> grouped (data (prepared s))" by (simp add: prepared_keeps)
  have "redraw s = (Some TypeError, snd (mountPoints (prepared s)))"
    using mountPoints_not_grouped(1) [OF g]
    by (cases "mountPoints (prepared s)") (simp add: redraw_prepared)
  then show "fst (redraw s) = Some TypeError" "points (snd (redraw s)) = points s"
    using mountPoints_not_grouped(2) [OF g] by (simp_all add: prepared_keeps)
qed

lemma redraw_keeps:
  "activePoint (snd (redraw s)) = activePoint s"
  "data (snd (redraw s)) = data s"
  "tooltip (snd (redraw s)) = tooltip s"
proof -
  have "activePoint (snd (redraw s)) = activePoint s \<and> data (snd (redraw s)) = data s
     \<and> tooltip (snd (redraw s)) = tooltip s"
  proof (cases "grouped (data s)")
    case True
    then have g: "grouped (data (prepared s))" by (simp add: prepared_keeps)
    show ?thesis
      by (simp add: redraw_prepared mountPoints_grouped [OF g] prepared_keeps
          mountBrush_def mountLegend_def mountDelaunay_def)
  next
    case False
    then have g: "\<not> grouped (data (prepared s))" by (simp add: prepared_keeps)
    have "redraw s = (Some TypeError, snd (mountPoints (prepared s)))"
      using mountPoints_not_grouped(1) [OF g]
      by (cases "mountPoints (prepared s)") (simp add: redraw_prepared)
    then show ?thesis
      using mountPoints_not_grouped [OF g] by (simp add: prepared_keeps)
  qed
  then show "activePoint (snd (redraw s)) = activePoint s" "data (snd (redraw s)) = data s"
    "tooltip (snd (redraw s)) = tooltip s" by simp_all
qed

lemma redraw_emphasized: "fst (redraw s) = None \<Longrightarrow> emphasized (snd (redraw s)) = []"
proof -
  assume a: "fst (redraw s) = None"
  have g: "grouped (data s)"
  proof (rule ccontr)
    assume "\<not> grouped (data s)"
    then have "fst (redraw s) = Some TypeError" by (rule redraw_not_grouped)
    with a show False by simp
  qed
  show ?thesis
  proof (rule emphasized_Nil_if_dim)
    fix row p assume "row \<in> set (points (snd (redraw s)))" "p \<in> set row"
    then show "p_fillOpacity p = Some (3/10)"
      using expected_points_dim [of row s 0 "elems (data s)" p] by (simp add: redraw_grouped(2) [OF g])
  qed
qed

lemma redraw_invariant:
  assumes "only_active_emphasized s"
  shows "only_active_emphasized (snd (redraw s))"
proof (cases "grouped (data s)")
  case True
  then have "fst (redraw s) = None" by (rule redraw_grouped)
  then have "emphasized (snd (redraw s)) = []" by (rule redraw_emphasized)
  then show ?thesis by (simp add: only_active_emphasized_def)
next
  case False
  then have "points (snd (redraw s)) = points s" by (rule redraw_not_grouped)
  then have "only_active_emphasized (snd (redraw s)) = only_active_emphasized s"
    by (rule only_active_emphasized_cong) (rule redraw_keeps)
  with assms show ?thesis by simp
qed


lemma onPoint_invariant:
  assumes "only_active_emphasized s"
  shows "only_active_emphasized (snd (onPointHandler ps s))"
proof (cases ps)
  case Nil
  with assms show ?thesis by simp
next
  case (Cons p rest)
  let ?t = "snd (set_activePoint (fst (target p)) (snd (target p)) s)"
  have "only_active_emphasized (snd (onPointHandler (p # rest) s)) = only_active_emphasized ?t"
    by (rule only_active_emphasized_cong) (rule onPoint_keeps)+
  with Cons set_activePoint_invariant [OF assms] show ?thesis by simp
qed

lemma onLeave_invariant:
  assumes "only_active_emphasized s"
  shows "only_active_emphasized (snd (onLeaveHandler s))"
proof -
  have "only_active_emphasized (snd (onLeaveHandler s))
      = only_active_emphasized (snd (set_activePoint (-1) (-1) s))"
    by (rule only_active_emphasized_cong) (rule onLeave_keeps)+
  with set_activePoint_invariant [OF assms] show ?thesis by simp
qed

lemma step_invariant:
  assumes "only_active_emphasized s"
  shows "only_active_emphasized (snd (step ev s))"
proof (cases ev)
  case Redraw
  with assms show ?thesis by (simp add: redraw_invariant)
next
  case (SetData d)
  have "only_active_emphasized (s\<lparr>data := d\<rparr>) = only_active_emphasized s"
    by (rule only_active_emphasized_cong) simp_all
  with SetData assms show ?thesis by simp
next
  case (OnPoint ps)
  with assms show ?thesis by (simp add: onPoint_invariant)
next
  case OnLeave
  with assms show ?thesis by (simp add: onLeave_invariant)
qed

lemma wf_hit_target: "wf_hit p \<Longrightarrow> well_set (target p)"
  by (auto simp: wf_hit_def target_def well_set_def split: option.splits)

lemma step_well_set:
  assumes "well_set (activePoint s)" and "wf_event ev"
  shows "well_set (activePoint (snd (step ev s)))"
proof (cases ev)
  case Redraw
  with assms show ?thesis by (simp add: redraw_keeps)
next
  case (SetData d)
  with assms show ?thesis by simp
next
  case (OnPoint ps)
  show ?thesis
  proof (cases ps)
    case Nil
    with OnPoint assms show ?thesis by simp
  next
    case (Cons p rest)
    with OnPoint assms(2) have "well_set (fst (target p), snd (target p))"
      by (simp add: wf_hit_target)
    from set_activePoint_well_set [OF assms(1) this] OnPoint Cons
    show ?thesis by (simp del: onPointHandler.simps add: onPoint_keeps)
  qed
next
  case OnLeave
  have "well_set (-1, -1)" by (simp add: well_set_def)
  from set_activePoint_well_set [OF assms(1) this] OnLeave
  show ?thesis by (simp add: onLeave_keeps)
qed

lemma constructor_active: "activePoint (snd (constructor a)) = (-1, -1)"
  by (simp add: constructor_def configure_def Let_def redraw_keeps field_init_def)

lemma reachable_only_active_emphasized: "reachable s \<Longrightarrow> only_active_emphasized s"
proof (induction rule: reachable.induct)
  case (r_start a s)
  then have "fst (constructor a) = None" "s = snd (constructor a)" by simp_all
  then have "emphasized s = []"
    by (simp add: constructor_def redraw_emphasized)
  then show ?case by (simp add: only_active_emphasized_def)
next
  case (r_step s ev)
  then show ?case by (simp add: step_invariant)
qed

lemma reachable_well_set: "reachable s \<Longrightarrow> well_set (activePoint s)"
proof (induction rule: reachable.induct)
  case (r_start a s)
  then have "s = snd (constructor a)" by simp
  then show ?case by (simp add: constructor_active well_set_def)
next
  case (r_step s ev)
  then show ?case by (simp add: step_well_set)
qed


section \<open>The chart to run, evaluated\<close>

lemma demo_constructor: "constructor demo_args = (None, demo_chart)"
proof -
  have "fst (constructor demo_args) = None" by code_simp
  then show ?thesis by (simp add: demo_chart_def prod_eq_iff)
qed

lemma demo_reachable: "reachable demo_chart"
  using demo_constructor by (rule r_start)

lemma wf_hit_at: "0 \<le> i \<Longrightarrow> 0 \<le> j \<Longrightarrow> wf_hit (hit_at i j)"
  by (simp add: wf_hit_def hit_at_def)

section \<open>The active-point reference\<close>

text \<open>
  C5. In every state the chart can reach from its construction through \<^verbatim>\<open>redraw()\<close>,
  assignments of the data, and \<^verbatim>\<open>onPoint\<close> and \<^verbatim>\<open>onLeave\<close> events whose positions are
  array positions, the active-point reference is never half-set: it is the sentinel pair
  \<open>(-1, -1)\<close>, or both of its indices are non-negative; never is exactly one index \<open>-1\<close>.
\<close>

theorem active_point_never_half_set:
  "reachable s \<Longrightarrow>
     (activePoint s = (-1, -1) \<or> (0 \<le> fst (activePoint s) \<and> 0 \<le> snd (activePoint s))) \<and>
     \<not> half_set (activePoint s)"
proof -
  assume "reachable s"
  then have "well_set (activePoint s)" by (rule reachable_well_set)
  then show ?thesis by (auto simp: well_set_def half_set_def)
qed

theorem active_point_never_half_set_witness:
  "reachable (snd (step (OnPoint [hit_at 1 0]) demo_chart)) \<and>
   activePoint (snd (step (OnPoint [hit_at 1 0]) demo_chart)) = (1, 0) \<and>
   \<not> half_set (activePoint (snd (step (OnPoint [hit_at 1 0]) demo_chart)))"
proof -
  have w: "wf_event (OnPoint [hit_at 1 0])" by (simp add: wf_hit_at)
  have r: "reachable (snd (step (OnPoint [hit_at 1 0]) demo_chart))"
    using demo_reachable w by (rule r_step)
  have a: "activePoint (snd (step (OnPoint [hit_at 1 0]) demo_chart)) = (1, 0)"
    unfolding demo_chart_def by code_simp
  from active_point_never_half_set [OF r] r a show ?thesis by simp
qed

lemma onPoint_active_None:
  "fst (onPointHandler (p # ps) s) = None \<Longrightarrow>
   activePoint (snd (onPointHandler (p # ps) s)) = target p"
proof -
  let ?r = "set_activePoint (fst (target p)) (snd (target p)) s"
  assume "fst (onPointHandler (p # ps) s) = None"
  then have "fst ?r = None" by (simp only: onPoint_fst)
  then have "fst (deset s) = None"
    using set_activePoint_throw [of s "fst (target p)" "snd (target p)"] by (cases "fst (deset s)") auto
  then have "activePoint (snd ?r) = target p" by (simp add: set_activePoint_active)
  then show ?thesis by (simp only: onPoint_keeps)
qed

section \<open>The series index of a hit\<close>

text \<open>
  C10. When the hit point of an \<^verbatim>\<open>onPoint\<close> event carries no series index (its
  \<^verbatim>\<open>arrayIndex\<close> is \<^verbatim>\<open>null\<close> or \<^verbatim>\<open>undefined\<close>), the handler substitutes series index 0:
  the setter is called with \<open>(0, index)\<close>, and a transition that completes ends in
  \<open>Highlighted(0, index)\<close>; the series index is neither missing nor half-set.
\<close>

theorem missing_series_index_is_zero:
  "arrayIndex p = None \<Longrightarrow>
     target p = (0, index p) \<and>
     fst (onPointHandler (p # ps) s) = fst (set_activePoint 0 (index p) s) \<and>
     points (snd (onPointHandler (p # ps) s)) = points (snd (set_activePoint 0 (index p) s)) \<and>
     (fst (onPointHandler (p # ps) s) = None \<longrightarrow>
        activePoint (snd (onPointHandler (p # ps) s)) = (0, index p)) \<and>
     (0 \<le> index p \<longrightarrow> \<not> half_set (target p))"
proof -
  assume a: "arrayIndex p = None"
  then have t: "target p = (0, index p)" by (simp add: target_def)
  have "fst (onPointHandler (p # ps) s) = fst (set_activePoint 0 (index p) s)"
    using onPoint_fst [of p ps s] t by simp
  moreover have "points (snd (onPointHandler (p # ps) s)) = points (snd (set_activePoint 0 (index p) s))"
    using onPoint_keeps(1) [of p ps s] t by simp
  moreover have "fst (onPointHandler (p # ps) s) = None \<longrightarrow>
        activePoint (snd (onPointHandler (p # ps) s)) = (0, index p)"
    using onPoint_active_None [of p ps s] t by simp
  moreover have "0 \<le> index p \<longrightarrow> \<not> half_set (target p)"
    using t by (simp add: half_set_def)
  ultimately show ?thesis using t by simp
qed

theorem missing_series_index_is_zero_witness:
  "arrayIndex (hit_noseries 1) = None \<and>
   fst (onPointHandler [hit_noseries 1] demo_chart) = None \<and>
   activePoint (snd (onPointHandler [hit_noseries 1] demo_chart)) = (0, 1) \<and>
   \<not> half_set (target (hit_noseries 1))"
proof -
  have a: "arrayIndex (hit_noseries 1) = None" by (simp add: hit_noseries_def)
  have i: "index (hit_noseries 1) = 1" by (simp add: hit_noseries_def)
  have f: "fst (onPointHandler [hit_noseries 1] demo_chart) = None"
    unfolding demo_chart_def by code_simp
  from missing_series_index_is_zero [OF a, of "[]" demo_chart] a i f show ?thesis
    by (simp add: half_set_def)
qed

section \<open>Normalization of the data\<close>

lemma flat_grouped: "flat d \<Longrightarrow> grouped (Arr [d])"
  by (cases d) (simp_all add: flat_def grouped_def)

lemma grouped_not_flat:
  assumes "grouped d \<and> d \<noteq> Arr []"
  shows "\<not> flat d"
proof (cases d)
  case (Obj fs)
  then show ?thesis by (simp add: flat_def)
next
  case (Arr xs)
  show ?thesis
  proof (cases xs)
    case Nil
    with Arr assms show ?thesis by simp
  next
    case (Cons x rest)
    with Arr assms show ?thesis by (simp add: grouped_def flat_def)
  qed
qed

lemma super_init_data:
  "data (super_init a) = (if flat (a_data a) then Arr [a_data a] else a_data a)"
  by (simp add: super_init_def normalizeData_def)

lemma constructor_data:
  "data (snd (constructor a)) = (if flat (a_data a) then Arr [a_data a] else a_data a)"
  by (simp add: constructor_def redraw_keeps configure_def Let_def field_init_def super_init_data)

lemma constructor_data_before_redraw:
  "data (configure a (field_init (super_init a))) = data (snd (constructor a))"
  by (simp add: constructor_def redraw_keeps)

text \<open>
  C7. \<^verbatim>\<open>normalizeData\<close> wraps the data into a one-element sequence of series when the
  data is flagged as a flat sequence of records, and leaves it unchanged otherwise. In the
  constructor this happens once, before the registry and the Coordinate Index are built:
  for a flat input \<open>d\<close> the chart holds \<open>[d]\<close>, construction succeeds, and the index and
  the registry are built over that normalized data; an input that is not flat, such as a
  non-empty sequence of series, is kept as it is; \<^verbatim>\<open>redraw\<close> never changes the data again.
\<close>

theorem normalized_once_before_index:
  "data (normalizeData s) = (if isArrayOfObjects s then Arr [data s] else data s) \<and>
   data (snd (constructor a)) = (if flat (a_data a) then Arr [a_data a] else a_data a) \<and>
   (flat (a_data a) \<longrightarrow> fst (constructor a) = None) \<and>
   (grouped (a_data a) \<and> a_data a \<noteq> Arr [] \<longrightarrow> data (snd (constructor a)) = a_data a) \<and>
   (fst (constructor a) = None \<longrightarrow>
      delaunay (snd (constructor a)) =
        Some \<lparr>d_points = data (snd (constructor a)), d_nested = True,
              d_onPoint = OnPointHandler, d_onLeave = OnLeaveHandler\<rparr> \<and>
      points (snd (constructor a)) =
        expected_points (configure a (field_init (super_init a))) 0
          (elems (data (snd (constructor a))))) \<and>
   data (snd (redraw s)) = data s"
proof -
  let ?s0 = "configure a (field_init (super_init a))"
  have d0: "data ?s0 = data (snd (constructor a))" by (rule constructor_data_before_redraw)
  have n: "data (normalizeData s) = (if isArrayOfObjects s then Arr [data s] else data s)"
    by (simp add: normalizeData_def)
  have f: "flat (a_data a) \<longrightarrow> fst (constructor a) = None"
  proof
    assume "flat (a_data a)"
    then have "grouped (data ?s0)" by (simp add: d0 constructor_data flat_grouped)
    then show "fst (constructor a) = None" unfolding constructor_def by (rule redraw_grouped)
  qed
  have i: "fst (constructor a) = None \<longrightarrow>
      delaunay (snd (constructor a)) =
        Some \<lparr>d_points = data (snd (constructor a)), d_nested = True,
              d_onPoint = OnPointHandler, d_onLeave = OnLeaveHandler\<rparr> \<and>
      points (snd (constructor a)) =
        expected_points (configure a (field_init (super_init a))) 0
          (elems (data (snd (constructor a))))"
  proof
    assume ok: "fst (constructor a) = None"
    have g: "grouped (data ?s0)"
    proof (rule ccontr)
      assume "\<not> grouped (data ?s0)"
      then have "fst (redraw ?s0) = Some TypeError" by (rule redraw_not_grouped)
      with ok show False by (simp add: constructor_def)
    qed
    from redraw_grouped(2,4) [OF g] d0
    show "delaunay (snd (constructor a)) =
        Some \<lparr>d_points = data (snd (constructor a)), d_nested = True,
              d_onPoint = OnPointHandler, d_onLeave = OnLeaveHandler\<rparr> \<and>
      points (snd (constructor a)) =
        expected_points (configure a (field_init (super_init a))) 0
          (elems (data (snd (constructor a))))"
      by (simp add: constructor_def)
  qed
  have u: "grouped (a_data a) \<and> a_data a \<noteq> Arr [] \<longrightarrow> data (snd (constructor a)) = a_data a"
  proof
    assume g: "grouped (a_data a) \<and> a_data a \<noteq> Arr []"
    then have "\<not> flat (a_data a)" by (rule grouped_not_flat)
    then show "data (snd (constructor a)) = a_data a" by (simp add: constructor_data)
  qed
  from n constructor_data f u i redraw_keeps(2) show ?thesis by simp
qed

theorem normalized_once_before_index_witness:
  "flat (a_data flat_args) \<and>
   data (snd (constructor flat_args)) = Arr [Arr [rec0, rec1]] \<and>
   fst (constructor flat_args) = None \<and>
   delaunay (snd (constructor flat_args)) =
     Some \<lparr>d_points = Arr [Arr [rec0, rec1]], d_nested = True,
           d_onPoint = OnPointHandler, d_onLeave = OnLeaveHandler\<rparr> \<and>
   map (map p_fillOpacity) (points (snd (constructor flat_args))) =
     [[Some (3/10), Some (3/10)]]"
proof -
  have fl: "flat (a_data flat_args)"
    by (simp add: flat_args_def demo_args_def flat_def rec0_def rec1_def)
  have d: "a_data flat_args = Arr [rec0, rec1]" by (simp add: flat_args_def)
  from normalized_once_before_index [of _ flat_args] fl d show ?thesis
    by (simp add: mk_point_def)
qed

section \<open>The order of a redraw\<close>

lemma redraw_returns_iff: "fst (redraw s) = None \<longleftrightarrow> grouped (data s)"
proof
  assume a: "fst (redraw s) = None"
  show "grouped (data s)"
  proof (rule ccontr)
    assume "\<not> grouped (data s)"
    then have "fst (redraw s) = Some TypeError" by (rule redraw_not_grouped)
    with a show False by simp
  qed
next
  assume "grouped (data s)"
  then show "fst (redraw s) = None" by (rule redraw_grouped)
qed

text \<open>
  C9. A call of \<^verbatim>\<open>redraw()\<close> returns exactly when the data is grouped into series, and
  then it has made its calls in this order: the rugs that are configured, the tooltip calls
  if a tooltip is present, one mount per point of the registry built from the current
  data, the Coordinate Index over the same data with the two handlers of the state machine
  wired to it, the legend, the brush.
\<close>

theorem redraw_order:
  "(fst (redraw s) = None \<longleftrightarrow> grouped (data s)) \<and>
   (redraw s = (None, s') \<longrightarrow>
      trace s' =
        trace s @ rug_calls s @ tooltip_calls s @ expected_mounts 0 (elems (data s)) @
        [DelaunayMount (data s), LegendMount, BrushMount (brush s)] \<and>
      points s' = expected_points s 0 (elems (data s)) \<and>
      delaunay s' =
        Some \<lparr>d_points = data s, d_nested = True, d_onPoint = OnPointHandler,
              d_onLeave = OnLeaveHandler\<rparr> \<and>
      data s' = data s)"
proof -
  have "redraw s = (None, s') \<longrightarrow>
      trace s' =
        trace s @ rug_calls s @ tooltip_calls s @ expected_mounts 0 (elems (data s)) @
        [DelaunayMount (data s), LegendMount, BrushMount (brush s)] \<and>
      points s' = expected_points s 0 (elems (data s)) \<and>
      delaunay s' =
        Some \<lparr>d_points = data s, d_nested = True, d_onPoint = OnPointHandler,
              d_onLeave = OnLeaveHandler\<rparr> \<and>
      data s' = data s"
  proof
    assume r: "redraw s = (None, s')"
    then have "fst (redraw s) = None" and s': "s' = snd (redraw s)" by simp_all
    then have g: "grouped (data s)" by (simp only: redraw_returns_iff)
    from redraw_grouped(2,3,4) [OF g] redraw_keeps(2) [of s]
    show "trace s' =
        trace s @ rug_calls s @ tooltip_calls s @ expected_mounts 0 (elems (data s)) @
        [DelaunayMount (data s), LegendMount, BrushMount (brush s)] \<and>
      points s' = expected_points s 0 (elems (data s)) \<and>
      delaunay s' =
        Some \<lparr>d_points = data s, d_nested = True, d_onPoint = OnPointHandler,
              d_onLeave = OnLeaveHandler\<rparr> \<and>
      data s' = data s"
      unfolding s' by simp
  qed
  with redraw_returns_iff [of s] show ?thesis by simp
qed

theorem redraw_order_witness:
  "redraw (demo_chart\<lparr>xRugParams := Some True\<rparr>) =
     (None, snd (redraw (demo_chart\<lparr>xRugParams := Some True\<rparr>))) \<and>
   trace (snd (redraw (demo_chart\<lparr>xRugParams := Some True\<rparr>))) =
     trace demo_chart @
     [RugMount Horizontal, TooltipUpdateLegend, TooltipHide,
      PointMount 0 0, PointMount 0 1, PointMount 1 0,
      DelaunayMount (Arr [Arr [rec0, rec1], Arr [rec2]]), LegendMount, BrushMount False]"
proof -
  let ?s = "demo_chart\<lparr>xRugParams := Some True\<rparr>"
  have d: "data ?s = Arr [Arr [rec0, rec1], Arr [rec2]]"
    by (simp add: demo_chart_def constructor_data demo_args_def flat_def)
  have g: "grouped (data ?s)" by (simp add: d grouped_def)
  have b: "brush ?s = False" "tooltip ?s = True" "yRugParams ?s = None"
    unfolding demo_chart_def by code_simp+
  from redraw_order [of ?s "snd (redraw ?s)"] g d b show ?thesis
    by (simp add: prod_eq_iff rug_calls_def tooltip_calls_def truthy_def)
qed

section \<open>Transitions of the active point\<close>

lemma in_range_nonneg: "in_range ps (i, j) \<Longrightarrow> 0 \<le> i \<and> 0 \<le> j"
  by (simp add: in_range_iff)

lemma set_activePoint_retarget:
  assumes "activePoint s = (i, j)" and "in_range (points s) (i, j)" and "in_range (points s) (k, l)"
  shows "set_activePoint k l s =
     (None, s\<lparr>points := restyle (restyle (points s) i j (3/10)) k l 1,
               activePoint := (k, l),
               trace := trace s @ [PointUpdate (nat i) (nat j) (3/10), PointUpdate (nat k) (nat l) 1]\<rparr>)"
proof -
  from assms(2) have ij: "i \<noteq> -1" "j \<noteq> -1" using in_range_nonneg [of "points s" i j] by auto
  from assms(3) have kl: "k \<noteq> -1" "l \<noteq> -1" using in_range_nonneg [of "points s" k l] by auto
  have d: "deset s = (None, s\<lparr>points := restyle (points s) i j (3/10),
                     trace := trace s @ [PointUpdate (nat i) (nat j) (3/10)]\<rparr>)"
    using deset_dim [of s] assms(1,2) ij by simp
  show ?thesis
    using kl assms(3) by (simp add: set_activePoint_def d assign_def activate_on)
qed

lemma set_activePoint_leave:
  assumes "activePoint s = (i, j)" and "in_range (points s) (i, j)"
  shows "set_activePoint (-1) (-1) s =
     (None, s\<lparr>points := restyle (points s) i j (3/10),
               activePoint := (-1, -1),
               trace := trace s @ [PointUpdate (nat i) (nat j) (3/10)]\<rparr>)"
proof -
  from assms(2) have ij: "i \<noteq> -1" "j \<noteq> -1" using in_range_nonneg [of "points s" i j] by auto
  have d: "deset s = (None, s\<lparr>points := restyle (points s) i j (3/10),
                     trace := trace s @ [PointUpdate (nat i) (nat j) (3/10)]\<rparr>)"
    using deset_dim [of s] assms(1,2) ij by simp
  show ?thesis
    by (simp add: set_activePoint_def d assign_def activate_skip)
qed

lemma set_activePoint_idle_leave:
  assumes "idle s"
  shows "set_activePoint (-1) (-1) s = (None, s)"
proof -
  from assms have a: "activePoint s = (-1, -1)" by (simp add: idle_def)
  then have d: "deset s = (None, s)" by (simp add: deset_skip)
  have "s\<lparr>activePoint := (-1, -1)\<rparr> = s" using a by simp
  then show ?thesis by (simp add: set_activePoint_def d assign_def activate_skip)
qed

lemma set_activePoint_idle_enter:
  assumes "idle s" and "in_range (points s) (k, l)"
  shows "set_activePoint k l s =
     (None, s\<lparr>points := restyle (points s) k l 1, activePoint := (k, l),
               trace := trace s @ [PointUpdate (nat k) (nat l) 1]\<rparr>)"
proof -
  from assms(1) have a: "activePoint s = (-1, -1)" by (simp add: idle_def)
  then have d: "deset s = (None, s)" by (simp add: deset_skip)
  from assms(2) have kl: "k \<noteq> -1" "l \<noteq> -1" using in_range_nonneg [of "points s" k l] by auto
  show ?thesis
    using kl assms(2) by (simp add: set_activePoint_def d assign_def activate_on)
qed

lemma point_update_same: "p_fillOpacity p = Some v \<Longrightarrow> p\<lparr>p_fillOpacity := Some v\<rparr> = p"
  by (cases p) simp

lemma restyle_twice: "restyle (restyle ps i j v) i j w = restyle ps i j w"
proof (cases "nat i < length ps")
  case False
  then show ?thesis by (simp add: restyle_def list_update_beyond)
next
  case True
  show ?thesis
  proof (cases "nat j < length (ps ! nat i)")
    case False
    with True show ?thesis by (simp add: restyle_def list_update_beyond)
  next
    case j: True
    with True show ?thesis by (simp add: restyle_def)
  qed
qed

lemma restyle_same:
  assumes "in_range ps (i, j)" and "p_fillOpacity (ps ! nat i ! nat j) = Some v"
  shows "restyle ps i j v = ps"
proof -
  from assms(2) have "(ps ! nat i ! nat j)\<lparr>p_fillOpacity := Some v\<rparr> = ps ! nat i ! nat j"
    by (rule point_update_same)
  then show ?thesis by (simp add: restyle_def)
qed

lemma onPoint_of_setter:
  "set_activePoint (fst (target p)) (snd (target p)) s = (None, t) \<Longrightarrow>
   onPointHandler (p # ps) s =
     (None, if tooltip s then t\<lparr>trace := trace t @ [TooltipUpdateData [p]]\<rparr> else t)"
  using set_activePoint_keeps(1) [of "fst (target p)" "snd (target p)" s]
  by (simp add: onPointHandler.simps(2))

lemma onPoint_of_setter_throw:
  "set_activePoint (fst (target p)) (snd (target p)) s = (Some e, t) \<Longrightarrow>
   onPointHandler (p # ps) s = (Some e, t)"
  by (simp add: onPointHandler.simps(2))

lemma onLeave_of_setter:
  "set_activePoint (-1) (-1) s = (None, t) \<Longrightarrow>
   onLeaveHandler s = (None, if tooltip s then t\<lparr>trace := trace t @ [TooltipHide]\<rparr> else t)"
  using set_activePoint_keeps(1) [of "-1" "-1" s]
  by (simp add: onLeaveHandler_def)

lemma leave_emphasized:
  assumes "only_active_emphasized s"
  shows "emphasized (snd (onLeaveHandler s)) = []"
proof -
  have "emphasized (snd (set_activePoint (-1) (-1) s)) = []"
  proof (cases "fst (deset s) = None")
    case True
    then have "set_activePoint (-1) (-1) s = (None, assign (-1) (-1) (snd (deset s)))"
      by (simp add: set_activePoint_next activate_skip)
    moreover have "emphasized (assign (-1) (-1) (snd (deset s))) = emphasized (snd (deset s))"
      by (rule emphasized_cong) (simp add: assign_def)
    ultimately show ?thesis using deset_None_emphasized [OF assms True] by simp
  next
    case False
    then have t: "set_activePoint (-1) (-1) s = (Some TypeError, s)"
      by (rule set_activePoint_throw)
    have "\<not> in_range (points s) (activePoint s)"
    proof
      assume r: "in_range (points s) (activePoint s)"
      have "fst (deset s) = None"
      proof (cases "fst (activePoint s) = -1 \<or> snd (activePoint s) = -1")
        case True
        then show ?thesis by (simp add: deset_skip)
      next
        case False
        with r show ?thesis by (simp add: deset_dim)
      qed
      with False show False by simp
    qed
    with assms have "emphasized s = []" by (rule no_emphasized_out_of_range)
    with t show ?thesis by simp
  qed
  moreover have "emphasized (snd (onLeaveHandler s)) = emphasized (snd (set_activePoint (-1) (-1) s))"
    by (rule emphasized_cong) (rule onLeave_keeps)
  ultimately show ?thesis by simp
qed

text \<open>
  C3. In a reachable state \<open>Highlighted(i,j)\<close>, an \<^verbatim>\<open>onPoint\<close> event for another pair
  \<open>(k,l)\<close>, both pairs in range of the registry, completes; afterwards point \<open>(i,j)\<close> has
  the dim opacity 0.3, point \<open>(k,l)\<close> the emphasized opacity 1, exactly one point is
  emphasized, the state is \<open>Highlighted(k,l)\<close>, and no state the setter passes through is
  \<open>Idle\<close>.
\<close>

theorem retarget_highlight:
  assumes "reachable s" and "activePoint s = (i, j)" and "in_range (points s) (i, j)"
    and "target p = (k, l)" and "(k, l) \<noteq> (i, j)" and "in_range (points s) (k, l)"
  shows "fst (onPointHandler (p # ps) s) = None \<and>
     activePoint (snd (onPointHandler (p # ps) s)) = (k, l) \<and>
     opacity (snd (onPointHandler (p # ps) s)) (nat i) (nat j) = Some (3/10) \<and>
     opacity (snd (onPointHandler (p # ps) s)) (nat k) (nat l) = Some 1 \<and>
     emphasized (snd (onPointHandler (p # ps) s)) = [(nat k, nat l)] \<and>
     list_all (\<lambda>t. \<not> idle t) (setter_states k l s) \<and>
     snd (set_activePoint k l s) = last (setter_states k l s)"
proof -
  let ?s' = "snd (onPointHandler (p # ps) s)"
  let ?ps = "restyle (restyle (points s) i j (3/10)) k l 1"
  note eq = set_activePoint_retarget [OF assms(2,3,6)]
  from assms(3) have ij: "0 \<le> i" "0 \<le> j" "nat i < length (points s)" "nat j < length (points s ! nat i)"
    by (simp_all add: in_range_iff)
  from assms(6) have kl: "0 \<le> k" "0 \<le> l" "nat k < length (points s)" "nat l < length (points s ! nat k)"
    by (simp_all add: in_range_iff)
  from ij kl assms(5) have ne: "\<not> (nat i = nat k \<and> nat j = nat l)" by auto
  have f: "fst (onPointHandler (p # ps) s) = None"
    using eq assms(4) by (simp add: onPoint_fst)
  have pts: "points ?s' = ?ps"
    using eq assms(4) by (simp add: onPoint_keeps)
  have act: "activePoint ?s' = (k, l)"
    using eq assms(4) by (simp add: onPoint_keeps)
  have o1: "opacity ?s' (nat i) (nat j) = Some (3/10)"
    using ij ne by (simp add: opacity_def pts opacity_restyle)
  have o2: "opacity ?s' (nat k) (nat l) = Some 1"
    using kl by (simp add: opacity_def pts opacity_restyle)
  have "only_active_emphasized ?s'"
    using reachable_only_active_emphasized [OF assms(1)] by (rule onPoint_invariant)
  from emphasized_subset_active [OF this] act
  have sub: "set (emphasized ?s') \<subseteq> {(nat k, nat l)}" by simp
  have "(nat k, nat l) \<in> set (emphasized ?s')"
    using o2 kl by (simp add: mem_emphasized opacity_def pts)
  with sub have "set (emphasized ?s') = {(nat k, nat l)}" by auto
  then have e: "emphasized ?s' = [(nat k, nat l)]" by (rule emphasized_single)
  have d: "fst (deset s) = None" "activePoint (snd (deset s)) = (i, j)"
    using deset_dim [of s] assms(2,3) ij by (simp_all add: deset_keeps)
  have st: "list_all (\<lambda>t. \<not> idle t) (setter_states k l s)"
    using ij kl assms(2) d by (simp add: setter_states_def idle_def assign_def activate_keeps)
  have la: "snd (set_activePoint k l s) = last (setter_states k l s)"
    using d(1) by (simp add: setter_states_def set_activePoint_next)
  from f act o1 o2 e st la show ?thesis by simp
qed

lemma demo_highlighted_reachable: "reachable demo_highlighted"
proof -
  have "wf_event (OnPoint [hit_at 0 0])" by (simp add: wf_hit_at)
  with demo_reachable have "reachable (snd (step (OnPoint [hit_at 0 0]) demo_chart))"
    by (rule r_step)
  then show ?thesis by (simp add: demo_highlighted_def)
qed

lemma demo_highlighted_facts:
  "activePoint demo_highlighted = (0, 0)"
  "in_range (points demo_highlighted) (0, 0)"
  "in_range (points demo_highlighted) (1, 0)"
  "tooltip demo_highlighted"
  "opacity demo_highlighted 0 0 = Some 1"
  unfolding demo_highlighted_def demo_chart_def by code_simp+

lemma demo_chart_facts:
  "idle demo_chart"
  "tooltip demo_chart"
  "\<not> in_range (points demo_chart) (5, 0)"
  unfolding demo_chart_def by code_simp+

lemma target_hit_at: "target (hit_at i j) = (i, j)"
  by (simp add: target_def hit_at_def)

theorem retarget_highlight_witness:
  "reachable demo_highlighted \<and> activePoint demo_highlighted = (0, 0) \<and>
   in_range (points demo_highlighted) (0, 0) \<and> target (hit_at 1 0) = (1, 0) \<and>
   in_range (points demo_highlighted) (1, 0) \<and>
   fst (onPointHandler [hit_at 1 0] demo_highlighted) = None \<and>
   activePoint (snd (onPointHandler [hit_at 1 0] demo_highlighted)) = (1, 0) \<and>
   opacity (snd (onPointHandler [hit_at 1 0] demo_highlighted)) 0 0 = Some (3/10) \<and>
   opacity (snd (onPointHandler [hit_at 1 0] demo_highlighted)) 1 0 = Some 1 \<and>
   emphasized (snd (onPointHandler [hit_at 1 0] demo_highlighted)) = [(1, 0)]"
proof -
  have ne: "((1::int), (0::int)) \<noteq> (0, 0)" by simp
  from retarget_highlight [OF demo_highlighted_reachable demo_highlighted_facts(1,2)
      target_hit_at [of 1 0] ne demo_highlighted_facts(3), of "[]"]
    demo_highlighted_reachable demo_highlighted_facts target_hit_at [of 1 0]
  show ?thesis by simp
qed

text \<open>
  C1, as the code has it. In a state \<open>Highlighted(i,j)\<close> with \<open>(i,j)\<close> in range, an
  \<^verbatim>\<open>onPoint\<close> event for the same pair completes and leaves the state and, when the point
  carries the emphasized opacity, every point style as they were; but it is not a no-op:
  the handle \<open>(i,j)\<close> receives two update calls, the dim opacity and then the emphasized
  one, and the tooltip, when present, one update call.
\<close>

theorem same_point_again:
  assumes "activePoint s = (i, j)" and "in_range (points s) (i, j)" and "target p = (i, j)"
  shows "fst (onPointHandler (p # ps) s) = None \<and>
     activePoint (snd (onPointHandler (p # ps) s)) = (i, j) \<and>
     points (snd (onPointHandler (p # ps) s)) = restyle (points s) i j 1 \<and>
     (opacity s (nat i) (nat j) = Some 1 \<longrightarrow>
        points (snd (onPointHandler (p # ps) s)) = points s) \<and>
     trace (snd (onPointHandler (p # ps) s)) =
       trace s @ [PointUpdate (nat i) (nat j) (3/10), PointUpdate (nat i) (nat j) 1] @
       (if tooltip s then [TooltipUpdateData [p]] else [])"
proof -
  let ?t = "s\<lparr>points := restyle (restyle (points s) i j (3/10)) i j 1, activePoint := (i, j),
              trace := trace s @ [PointUpdate (nat i) (nat j) (3/10), PointUpdate (nat i) (nat j) 1]\<rparr>"
  have "set_activePoint (fst (target p)) (snd (target p)) s = (None, ?t)"
    using set_activePoint_retarget [OF assms(1,2,2)] assms(3) by simp
  then have eq: "onPointHandler (p # ps) s =
     (None, if tooltip s then ?t\<lparr>trace := trace ?t @ [TooltipUpdateData [p]]\<rparr> else ?t)"
    by (rule onPoint_of_setter)
  have same: "opacity s (nat i) (nat j) = Some 1 \<longrightarrow> restyle (points s) i j 1 = points s"
    using restyle_same [OF assms(2), of 1] by (simp add: opacity_def)
  from eq same show ?thesis by (simp add: restyle_twice)
qed

theorem same_point_again_witness:
  "activePoint demo_highlighted = (0, 0) \<and> in_range (points demo_highlighted) (0, 0) \<and>
   target (hit_at 0 0) = (0, 0) \<and>
   fst (onPointHandler [hit_at 0 0] demo_highlighted) = None \<and>
   activePoint (snd (onPointHandler [hit_at 0 0] demo_highlighted)) = (0, 0) \<and>
   points (snd (onPointHandler [hit_at 0 0] demo_highlighted)) = points demo_highlighted \<and>
   trace (snd (onPointHandler [hit_at 0 0] demo_highlighted)) =
     trace demo_highlighted @
     [PointUpdate 0 0 (3/10), PointUpdate 0 0 1, TooltipUpdateData [hit_at 0 0]]"
proof -
  let ?s' = "snd (onPointHandler [hit_at 0 0] demo_highlighted)"
  note w = same_point_again [OF demo_highlighted_facts(1,2) target_hit_at [of 0 0], of "[]"]
  from w have "opacity demo_highlighted (nat 0) (nat 0) = Some 1 \<longrightarrow>
      points ?s' = points demo_highlighted" by (elim conjE)
  with demo_highlighted_facts(5) have p: "points ?s' = points demo_highlighted" by simp
  from w have f: "fst (onPointHandler [hit_at 0 0] demo_highlighted) = None" by (elim conjE)
  from w have a: "activePoint ?s' = (0, 0)" by (elim conjE)
  from w have "trace ?s' =
       trace demo_highlighted @ [PointUpdate (nat 0) (nat 0) (3/10), PointUpdate (nat 0) (nat 0) 1] @
       (if tooltip demo_highlighted then [TooltipUpdateData [hit_at 0 0]] else [])" by (elim conjE)
  with demo_highlighted_facts(4) have tr: "trace ?s' =
     trace demo_highlighted @
     [PointUpdate 0 0 (3/10), PointUpdate 0 0 1, TooltipUpdateData [hit_at 0 0]]" by simp
  show ?thesis
    by (intro conjI demo_highlighted_facts(1,2) target_hit_at f a p tr)
qed

text \<open>
  C1, as it is stated, fails: with the first point highlighted, a second \<^verbatim>\<open>onPoint\<close> for
  that point adds two handle updates and a tooltip update to the calls made.
\<close>

theorem same_point_not_noop_counterexample:
  "activePoint demo_highlighted = (0, 0) \<and> target (hit_at 0 0) = (0, 0) \<and>
   trace (snd (onPointHandler [hit_at 0 0] demo_highlighted)) =
     trace demo_highlighted @
     [PointUpdate 0 0 (3/10), PointUpdate 0 0 1, TooltipUpdateData [hit_at 0 0]] \<and>
   onPointHandler [hit_at 0 0] demo_highlighted \<noteq> (None, demo_highlighted)"
proof -
  have t: "trace (snd (onPointHandler [hit_at 0 0] demo_highlighted)) =
     trace demo_highlighted @
     [PointUpdate 0 0 (3/10), PointUpdate 0 0 1, TooltipUpdateData [hit_at 0 0]]"
    unfolding demo_highlighted_def demo_chart_def by code_simp
  have "onPointHandler [hit_at 0 0] demo_highlighted \<noteq> (None, demo_highlighted)"
  proof
    assume "onPointHandler [hit_at 0 0] demo_highlighted = (None, demo_highlighted)"
    then have "trace (snd (onPointHandler [hit_at 0 0] demo_highlighted)) = trace demo_highlighted"
      by simp
    with t show False by simp
  qed
  with t demo_highlighted_facts(1) target_hit_at [of 0 0] show ?thesis by simp
qed

section \<open>A redraw with new data\<close>

text \<open>
  C2 says that after \<^verbatim>\<open>redraw()\<close> with new data a stale pair is never dereferenced
  against the new registry. The code keeps \<^verbatim>\<open>_activePoint\<close> across \<^verbatim>\<open>redraw()\<close>: with
  point \<open>(0,1)\<close> highlighted, the data replaced by a single record and the chart
  redrawn, the reference is still \<open>(0,1)\<close>, which the new registry does not have; the next
  \<^verbatim>\<open>onLeave\<close> and the next \<^verbatim>\<open>onPoint\<close> dereference it there and throw, and the state
  stays \<open>Highlighted(0,1)\<close>.
\<close>

theorem stale_reference_after_redraw:
  "fst (run [OnPoint [hit_at 0 1], SetData (Arr [Arr [rec0]]), Redraw] demo_chart) = [None, None, None] \<and>
   map length (points demo_stale) = [1] \<and>
   activePoint demo_stale = (0, 1) \<and>
   \<not> in_range (points demo_stale) (activePoint demo_stale) \<and>
   fst (onLeaveHandler demo_stale) = Some TypeError \<and>
   activePoint (snd (onLeaveHandler demo_stale)) = (0, 1) \<and>
   trace (snd (onLeaveHandler demo_stale)) = trace demo_stale \<and>
   fst (onPointHandler [hit_at 0 0] demo_stale) = Some TypeError"
  unfolding demo_stale_def demo_chart_def by code_simp

section \<open>Without a tooltip\<close>

lemma update_point_frame:
  "colors (snd (update_point i j v s)) = colors s"
  "sizeAccessor (snd (update_point i j v s)) = sizeAccessor s"
  "tooltip_trace (snd (update_point i j v s)) = tooltip_trace s"
  by (simp_all add: update_point_eq tooltip_trace_def is_tooltip_call_def)

lemma deset_frame:
  "colors (snd (deset s)) = colors s"
  "sizeAccessor (snd (deset s)) = sizeAccessor s"
  "tooltip_trace (snd (deset s)) = tooltip_trace s"
  by (simp_all add: deset_def update_point_frame)

lemma activate_frame:
  "colors (snd (activate i j s)) = colors s"
  "sizeAccessor (snd (activate i j s)) = sizeAccessor s"
  "tooltip_trace (snd (activate i j s)) = tooltip_trace s"
  by (simp_all add: activate_def update_point_frame)

lemma assign_frame:
  "colors (assign i j s) = colors s"
  "sizeAccessor (assign i j s) = sizeAccessor s"
  "tooltip_trace (assign i j s) = tooltip_trace s"
  by (simp_all add: assign_def tooltip_trace_def)

lemma set_activePoint_frame:
  "colors (snd (set_activePoint i j s)) = colors s"
  "sizeAccessor (snd (set_activePoint i j s)) = sizeAccessor s"
  "tooltip_trace (snd (set_activePoint i j s)) = tooltip_trace s"
  by (cases "fst (deset s) = None";
      simp add: set_activePoint_throw set_activePoint_next activate_frame deset_frame assign_frame)+

lemma set_activePoint_core:
  assumes "points s = points t" and "activePoint s = activePoint t"
  shows "fst (set_activePoint i j s) = fst (set_activePoint i j t)"
    and "points (snd (set_activePoint i j s)) = points (snd (set_activePoint i j t))"
    and "activePoint (snd (set_activePoint i j s)) = activePoint (snd (set_activePoint i j t))"
  using assms
  by (simp_all add: set_activePoint_def deset_def activate_def assign_def update_point_eq)

lemma onPoint_snd_no_tooltip:
  assumes "\<not> tooltip s"
  shows "snd (onPointHandler (p # ps) s) = snd (set_activePoint (fst (target p)) (snd (target p)) s)"
proof (cases "set_activePoint (fst (target p)) (snd (target p)) s")
  case (Pair e t)
  show ?thesis
  proof (cases e)
    case None
    with Pair assms show ?thesis using onPoint_of_setter [of p s t ps] by simp
  next
    case (Some err)
    with Pair show ?thesis using onPoint_of_setter_throw [of p s err t ps] by simp
  qed
qed

lemma onLeave_snd_no_tooltip:
  assumes "\<not> tooltip s"
  shows "snd (onLeaveHandler s) = snd (set_activePoint (-1) (-1) s)"
proof (cases "set_activePoint (-1) (-1) s")
  case (Pair e t)
  show ?thesis
  proof (cases e)
    case None
    with Pair assms show ?thesis using onLeave_of_setter [of s t] by simp
  next
    case (Some err)
    with Pair show ?thesis by (simp add: onLeaveHandler_def)
  qed
qed

lemma onPoint_frame:
  "colors (snd (onPointHandler (p # ps) s)) = colors s"
  "sizeAccessor (snd (onPointHandler (p # ps) s)) = sizeAccessor s"
proof -
  let ?r = "set_activePoint (fst (target p)) (snd (target p)) s"
  have "colors (snd (onPointHandler (p # ps) s)) = colors (snd ?r) \<and>
        sizeAccessor (snd (onPointHandler (p # ps) s)) = sizeAccessor (snd ?r)"
  proof (cases ?r)
    case (Pair e t)
    show ?thesis
    proof (cases e)
      case None
      with Pair show ?thesis using onPoint_of_setter [of p s t ps] by simp
    next
      case (Some err)
      with Pair show ?thesis using onPoint_of_setter_throw [of p s err t ps] by simp
    qed
  qed
  then show "colors (snd (onPointHandler (p # ps) s)) = colors s"
    "sizeAccessor (snd (onPointHandler (p # ps) s)) = sizeAccessor s"
    by (simp_all add: set_activePoint_frame)
qed

lemma onLeave_frame:
  "colors (snd (onLeaveHandler s)) = colors s"
  "sizeAccessor (snd (onLeaveHandler s)) = sizeAccessor s"
proof -
  let ?r = "set_activePoint (-1) (-1) s"
  have "colors (snd (onLeaveHandler s)) = colors (snd ?r) \<and>
        sizeAccessor (snd (onLeaveHandler s)) = sizeAccessor (snd ?r)"
  proof (cases ?r)
    case (Pair e t)
    show ?thesis
    proof (cases e)
      case None
      with Pair show ?thesis using onLeave_of_setter [of s t] by simp
    next
      case (Some err)
      with Pair show ?thesis by (simp add: onLeaveHandler_def)
    qed
  qed
  then show "colors (snd (onLeaveHandler s)) = colors s"
    "sizeAccessor (snd (onLeaveHandler s)) = sizeAccessor s"
    by (simp_all add: set_activePoint_frame)
qed

lemma mountSets_no_tooltip_call:
  "filter is_tooltip_call (snd (snd (mountSets s i sets))) = []"
proof (induction sets arbitrary: i)
  case Nil
  show ?case by simp
next
  case (Cons d rest)
  show ?case
  proof (cases d)
    case (Obj fs)
    then show ?thesis by simp
  next
    case (Arr ds)
    have "filter is_tooltip_call (map (PointMount i) [0..<length ds]) = []"
      by (simp add: is_tooltip_call_def)
    with Arr Cons.IH [of "Suc i"] show ?thesis
      by (cases "mountSets s (Suc i) rest") simp
  qed
qed

lemma mountPoints_frame:
  "colors (snd (mountPoints s)) = colors s"
  "sizeAccessor (snd (mountPoints s)) = sizeAccessor s"
  "tooltip_trace (snd (mountPoints s)) = tooltip_trace s"
proof -
  have "colors (snd (mountPoints s)) = colors s \<and> sizeAccessor (snd (mountPoints s)) = sizeAccessor s
      \<and> tooltip_trace (snd (mountPoints s)) = tooltip_trace s"
  proof (cases "data s")
    case (Obj fs)
    then show ?thesis by (simp add: mountPoints_def)
  next
    case (Arr sets)
    obtain e rows tr where m: "mountSets s 0 sets = (e, rows, tr)"
      by (cases "mountSets s 0 sets") auto
    with mountSets_no_tooltip_call [of s 0 sets] have "filter is_tooltip_call tr = []" by simp
    with Arr m show ?thesis by (cases e) (simp_all add: mountPoints_def tooltip_trace_def)
  qed
  then show "colors (snd (mountPoints s)) = colors s"
    "sizeAccessor (snd (mountPoints s)) = sizeAccessor s"
    "tooltip_trace (snd (mountPoints s)) = tooltip_trace s" by simp_all
qed

lemma redraw_frame:
  "colors (snd (redraw s)) = colors s"
  "sizeAccessor (snd (redraw s)) = sizeAccessor s"
  "\<not> tooltip s \<Longrightarrow> tooltip_trace (snd (redraw s)) = tooltip_trace s"
proof -
  obtain e t where m: "mountPoints (prepared s) = (e, t)" by (cases "mountPoints (prepared s)") auto
  from mountPoints_frame [of "prepared s"] m
  have t: "colors t = colors s" "sizeAccessor t = sizeAccessor s"
    "tooltip_trace t = tooltip_trace (prepared s)"
    by (simp_all add: prepared_keeps)
  have r: "snd (redraw s) = (case e of None \<Rightarrow> mountBrush (brush t) (mountLegend (mountDelaunay t)) | Some err \<Rightarrow> t)"
    using m by (cases e) (simp_all add: redraw_prepared)
  show "colors (snd (redraw s)) = colors s"
    using t by (cases e) (simp_all add: r mountBrush_def mountLegend_def mountDelaunay_def)
  show "sizeAccessor (snd (redraw s)) = sizeAccessor s"
    using t by (cases e) (simp_all add: r mountBrush_def mountLegend_def mountDelaunay_def)
  show "tooltip_trace (snd (redraw s)) = tooltip_trace s" if "\<not> tooltip s"
  proof -
    from that have "tooltip_trace (prepared s) = tooltip_trace s"
      by (simp add: tooltip_trace_def prepared_keeps rug_calls_def tooltip_calls_def is_tooltip_call_def)
    with t(3) have "tooltip_trace t = tooltip_trace s" by simp
    then have "filter is_tooltip_call (trace t) = tooltip_trace s" by (simp add: tooltip_trace_def)
    then show ?thesis
      by (cases e)
         (simp_all add: r tooltip_trace_def mountBrush_def mountLegend_def mountDelaunay_def
            is_tooltip_call_def)
  qed
qed

lemma step_no_tooltip:
  assumes "\<not> tooltip s"
  shows "\<not> tooltip (snd (step ev s))" and "tooltip_trace (snd (step ev s)) = tooltip_trace s"
proof -
  have "\<not> tooltip (snd (step ev s)) \<and> tooltip_trace (snd (step ev s)) = tooltip_trace s"
  proof (cases ev)
    case Redraw
    with assms show ?thesis by (simp add: redraw_keeps redraw_frame)
  next
    case (SetData d)
    with assms show ?thesis by (simp add: tooltip_trace_def)
  next
    case (OnPoint ps)
    show ?thesis
    proof (cases ps)
      case Nil
      with OnPoint assms show ?thesis by simp
    next
      case (Cons p rest)
      with OnPoint assms show ?thesis
        by (simp add: onPoint_snd_no_tooltip set_activePoint_keeps set_activePoint_frame)
    qed
  next
    case OnLeave
    with assms show ?thesis
      by (simp add: onLeave_snd_no_tooltip set_activePoint_keeps set_activePoint_frame)
  qed
  then show "\<not> tooltip (snd (step ev s))" "tooltip_trace (snd (step ev s)) = tooltip_trace s"
    by simp_all
qed

lemma step_same_core:
  assumes "same_core s t"
  shows "fst (step ev s) = fst (step ev t)" and "same_core (snd (step ev s)) (snd (step ev t))"
proof -
  from assms have c: "data s = data t" "points s = points t" "activePoint s = activePoint t"
    "colors s = colors t" "sizeAccessor s = sizeAccessor t"
    by (simp_all add: same_core_def)
  have "fst (step ev s) = fst (step ev t) \<and> same_core (snd (step ev s)) (snd (step ev t))"
  proof (cases ev)
    case Redraw
    have f: "fst (redraw s) = fst (redraw t)"
    proof (cases "grouped (data t)")
      case True
      with c(1) show ?thesis by (simp add: redraw_grouped(1))
    next
      case False
      with c(1) show ?thesis by (simp add: redraw_not_grouped(1))
    qed
    have p: "points (snd (redraw s)) = points (snd (redraw t))"
    proof (cases "grouped (data t)")
      case True
      have "expected_points s 0 (elems (data t)) = expected_points t 0 (elems (data t))"
        using c(4,5) by (rule expected_points_cong)
      with True c(1) show ?thesis by (simp add: redraw_grouped(2))
    next
      case False
      with c(1,2) show ?thesis by (simp add: redraw_not_grouped(2))
    qed
    from Redraw f p c show ?thesis by (simp add: same_core_def redraw_keeps redraw_frame)
  next
    case (SetData d)
    with c show ?thesis by (simp add: same_core_def)
  next
    case (OnPoint ps)
    show ?thesis
    proof (cases ps)
      case Nil
      with OnPoint assms show ?thesis by simp
    next
      case (Cons p rest)
      note k = set_activePoint_core [OF c(2,3), of "fst (target p)" "snd (target p)"]
      from OnPoint Cons k c show ?thesis
        by (simp add: same_core_def onPoint_fst onPoint_keeps onPoint_frame)
    qed
  next
    case OnLeave
    note k = set_activePoint_core [OF c(2,3), of "-1" "-1"]
    from OnLeave k c show ?thesis
      by (simp add: same_core_def onLeave_fst onLeave_keeps onLeave_frame)
  qed
  then show "fst (step ev s) = fst (step ev t)" "same_core (snd (step ev s)) (snd (step ev t))"
    by simp_all
qed

lemma run_no_tooltip:
  "\<not> tooltip s \<Longrightarrow>
   \<not> tooltip (snd (run evs s)) \<and> tooltip_trace (snd (run evs s)) = tooltip_trace s"
proof (induction evs arbitrary: s)
  case Nil
  then show ?case by simp
next
  case (Cons ev evs)
  let ?s1 = "snd (step ev s)"
  from Cons.prems have 1: "\<not> tooltip ?s1" "tooltip_trace ?s1 = tooltip_trace s"
    by (rule step_no_tooltip)+
  from Cons.IH [OF 1(1)] 1(2)
  have "\<not> tooltip (snd (run evs ?s1)) \<and> tooltip_trace (snd (run evs ?s1)) = tooltip_trace s"
    by simp
  then show ?case
    by (cases "step ev s"; cases "run evs ?s1") simp
qed

lemma run_same_core:
  "same_core s t \<Longrightarrow> fst (run evs s) = fst (run evs t)"
proof (induction evs arbitrary: s t)
  case Nil
  show ?case by simp
next
  case (Cons ev evs)
  let ?s1 = "snd (step ev s)" and ?t1 = "snd (step ev t)"
  from Cons.prems have 1: "fst (step ev s) = fst (step ev t)" "same_core ?s1 ?t1"
    by (rule step_same_core)+
  from Cons.IH [OF 1(2)] have "fst (run evs ?s1) = fst (run evs ?t1)" .
  with 1(1) show ?case
    by (cases "step ev s"; cases "step ev t"; cases "run evs ?s1"; cases "run evs ?t1") simp
qed

text \<open>
  C6. When no tooltip is present, no sequence of \<^verbatim>\<open>redraw()\<close>, data assignments,
  \<^verbatim>\<open>onPoint\<close> and \<^verbatim>\<open>onLeave\<close> events makes a call on the tooltip, the tooltip stays
  absent, and no call fails on account of the absence: each call of the sequence throws
  exactly when it throws in the same sequence run with a tooltip present.
\<close>

theorem absent_tooltip_never_called:
  assumes "\<not> tooltip s"
  shows "filter is_tooltip_call (trace (snd (run evs s))) = filter is_tooltip_call (trace s) \<and>
     \<not> tooltip (snd (run evs s)) \<and>
     fst (run evs s) = fst (run evs (s\<lparr>tooltip := True\<rparr>))"
proof -
  have "same_core s (s\<lparr>tooltip := True\<rparr>)" by (simp add: same_core_def)
  then have "fst (run evs s) = fst (run evs (s\<lparr>tooltip := True\<rparr>))" by (rule run_same_core)
  with run_no_tooltip [OF assms, of evs] show ?thesis by (simp add: tooltip_trace_def)
qed

theorem absent_tooltip_never_called_witness:
  "\<not> tooltip demo_bare \<and>
   filter is_tooltip_call
     (trace (snd (run [OnPoint [hit_at 0 0], Redraw, OnPoint [hit_at 5 0], OnLeave] demo_bare))) =
   [] \<and>
   fst (run [OnPoint [hit_at 0 0], Redraw, OnPoint [hit_at 5 0], OnLeave] demo_bare) =
     [None, None, Some TypeError, Some TypeError]"
proof -
  have t: "\<not> tooltip demo_bare" unfolding demo_bare_def by code_simp
  have tr: "filter is_tooltip_call (trace demo_bare) = []"
    unfolding demo_bare_def by code_simp
  have e: "fst (run [OnPoint [hit_at 0 0], Redraw, OnPoint [hit_at 5 0], OnLeave]
             (demo_bare\<lparr>tooltip := True\<rparr>)) = [None, None, Some TypeError, Some TypeError]"
    unfolding demo_bare_def by code_simp
  from absent_tooltip_never_called [OF t, of "[OnPoint [hit_at 0 0], Redraw, OnPoint [hit_at 5 0], OnLeave]"]
    t tr e
  show ?thesis by simp
qed

section \<open>Leaving the plot area\<close>

lemma deset_fst_cases: "fst (deset s) = None \<or> fst (deset s) = Some TypeError"
  using deset_Some [of s] by (cases "fst (deset s)") auto

lemma deset_throw_iff:
  "fst (deset s) \<noteq> None \<longleftrightarrow>
     fst (activePoint s) \<noteq> -1 \<and> snd (activePoint s) \<noteq> -1 \<and> \<not> in_range (points s) (activePoint s)"
proof (cases "fst (activePoint s) = -1 \<or> snd (activePoint s) = -1")
  case True
  then have "deset s = (None, s)" by (rule deset_skip)
  with True show ?thesis by auto
next
  case False
  then have ne: "fst (activePoint s) \<noteq> -1" "snd (activePoint s) \<noteq> -1" by simp_all
  show ?thesis
  proof (cases "in_range (points s) (activePoint s)")
    case True
    with ne show ?thesis by (simp add: deset_dim)
  next
    case False
    with ne show ?thesis by (simp add: deset_throw)
  qed
qed

lemma onPoint_tooltip_trace_throw:
  "fst (onPointHandler (p # ps) s) \<noteq> None \<Longrightarrow>
   tooltip_trace (snd (onPointHandler (p # ps) s)) = tooltip_trace s"
proof -
  let ?r = "set_activePoint (fst (target p)) (snd (target p)) s"
  assume a: "fst (onPointHandler (p # ps) s) \<noteq> None"
  then have "fst ?r \<noteq> None" using onPoint_fst [of p ps s] by simp
  then obtain e where "?r = (Some e, snd ?r)" by (cases ?r) auto
  then have "onPointHandler (p # ps) s = (Some e, snd ?r)" by (rule onPoint_of_setter_throw)
  then show ?thesis by (simp add: set_activePoint_frame)
qed

lemma onLeave_tooltip_trace:
  assumes "fst (onLeaveHandler s) = None"
  shows "tooltip_trace (snd (onLeaveHandler s)) =
           tooltip_trace s @ (if tooltip s then [TooltipHide] else [])"
proof -
  let ?r = "set_activePoint (-1) (-1) s"
  from assms have "fst ?r = None" using onLeave_fst [of s] by simp
  then have "?r = (None, snd ?r)" by (cases ?r) auto
  then have "onLeaveHandler s =
      (None, if tooltip s then (snd ?r)\<lparr>trace := trace (snd ?r) @ [TooltipHide]\<rparr> else snd ?r)"
    by (rule onLeave_of_setter)
  moreover have "filter is_tooltip_call (trace (snd ?r)) = tooltip_trace s"
    using set_activePoint_frame(3) [of "-1" "-1" s] by (simp add: tooltip_trace_def)
  ultimately show ?thesis by (simp add: tooltip_trace_def is_tooltip_call_def)
qed


text \<open>
  C4, as the code has it. For an \<^verbatim>\<open>onLeave\<close> event in a reachable state: if the state is
  \<open>Highlighted(i,j)\<close> with \<open>(i,j)\<close> in range, the point gets its dim opacity back, the
  state becomes \<open>Idle\<close> and the tooltip, when present, is hidden; if the state is already
  \<open>Idle\<close>, the event completes with the state and every point style as they are, but the
  tooltip, when present, is hidden again. Every \<^verbatim>\<open>onLeave\<close> that completes makes exactly
  one \<^verbatim>\<open>hide()\<close> call when a tooltip is present. After any \<^verbatim>\<open>onLeave\<close> no point carries
  the emphasized opacity.
\<close>

theorem leave_behaviour:
  assumes "reachable s"
  shows "(in_range (points s) (activePoint s) \<longrightarrow>
            fst (onLeaveHandler s) = None \<and> idle (snd (onLeaveHandler s)) \<and>
            opacity (snd (onLeaveHandler s)) (nat (fst (activePoint s))) (nat (snd (activePoint s)))
              = Some (3/10) \<and>
            trace (snd (onLeaveHandler s)) =
              trace s @
              [PointUpdate (nat (fst (activePoint s))) (nat (snd (activePoint s))) (3/10)] @
              (if tooltip s then [TooltipHide] else [])) \<and>
         (idle s \<longrightarrow>
            fst (onLeaveHandler s) = None \<and> idle (snd (onLeaveHandler s)) \<and>
            points (snd (onLeaveHandler s)) = points s \<and>
            trace (snd (onLeaveHandler s)) = trace s @ (if tooltip s then [TooltipHide] else [])) \<and>
         (fst (onLeaveHandler s) = None \<longrightarrow>
            tooltip_trace (snd (onLeaveHandler s)) =
              tooltip_trace s @ (if tooltip s then [TooltipHide] else [])) \<and>
         emphasized (snd (onLeaveHandler s)) = []"
proof -
  let ?i = "fst (activePoint s)" and ?j = "snd (activePoint s)"
  have hi: "in_range (points s) (activePoint s) \<longrightarrow>
            fst (onLeaveHandler s) = None \<and> idle (snd (onLeaveHandler s)) \<and>
            opacity (snd (onLeaveHandler s)) (nat ?i) (nat ?j) = Some (3/10) \<and>
            trace (snd (onLeaveHandler s)) =
              trace s @ [PointUpdate (nat ?i) (nat ?j) (3/10)] @
              (if tooltip s then [TooltipHide] else [])"
  proof
    assume r: "in_range (points s) (activePoint s)"
    then have r': "in_range (points s) (?i, ?j)" by simp
    have b: "nat ?i < length (points s)" "nat ?j < length (points s ! nat ?i)"
      using r in_range_iff [of "points s" ?i ?j] by simp_all
    have a: "activePoint s = (?i, ?j)" by simp
    note eq = onLeave_of_setter [OF set_activePoint_leave [OF a r']]
    show "fst (onLeaveHandler s) = None \<and> idle (snd (onLeaveHandler s)) \<and>
            opacity (snd (onLeaveHandler s)) (nat ?i) (nat ?j) = Some (3/10) \<and>
            trace (snd (onLeaveHandler s)) =
              trace s @ [PointUpdate (nat ?i) (nat ?j) (3/10)] @
              (if tooltip s then [TooltipHide] else [])"
      using b by (simp add: eq idle_def opacity_def opacity_restyle)
  qed
  have lo: "idle s \<longrightarrow>
            fst (onLeaveHandler s) = None \<and> idle (snd (onLeaveHandler s)) \<and>
            points (snd (onLeaveHandler s)) = points s \<and>
            trace (snd (onLeaveHandler s)) = trace s @ (if tooltip s then [TooltipHide] else [])"
  proof
    assume i: "idle s"
    note eq = onLeave_of_setter [OF set_activePoint_idle_leave [OF i]]
    show "fst (onLeaveHandler s) = None \<and> idle (snd (onLeaveHandler s)) \<and>
            points (snd (onLeaveHandler s)) = points s \<and>
            trace (snd (onLeaveHandler s)) = trace s @ (if tooltip s then [TooltipHide] else [])"
      using i by (simp add: eq idle_def)
  qed
  have ok: "fst (onLeaveHandler s) = None \<longrightarrow>
            tooltip_trace (snd (onLeaveHandler s)) =
              tooltip_trace s @ (if tooltip s then [TooltipHide] else [])"
    using onLeave_tooltip_trace [of s] by blast
  have "emphasized (snd (onLeaveHandler s)) = []"
    using reachable_only_active_emphasized [OF assms] by (rule leave_emphasized)
  with hi lo ok show ?thesis by (intro conjI)
qed

theorem leave_behaviour_witness:
  "reachable demo_highlighted \<and> in_range (points demo_highlighted) (activePoint demo_highlighted) \<and>
   idle (snd (onLeaveHandler demo_highlighted)) \<and>
   opacity (snd (onLeaveHandler demo_highlighted)) 0 0 = Some (3/10) \<and>
   trace (snd (onLeaveHandler demo_highlighted)) =
     trace demo_highlighted @ [PointUpdate 0 0 (3/10), TooltipHide] \<and>
   emphasized (snd (onLeaveHandler demo_highlighted)) = [] \<and>
   fst (onLeaveHandler demo_highlighted) = None \<and>
   tooltip_trace (snd (onLeaveHandler demo_highlighted)) =
     tooltip_trace demo_highlighted @ [TooltipHide] \<and>
   reachable demo_chart \<and> idle demo_chart \<and>
   points (snd (onLeaveHandler demo_chart)) = points demo_chart \<and>
   trace (snd (onLeaveHandler demo_chart)) = trace demo_chart @ [TooltipHide]"
proof -
  have r: "in_range (points demo_highlighted) (activePoint demo_highlighted)"
    using demo_highlighted_facts(2) by (simp add: demo_highlighted_facts(1))
  note h = leave_behaviour [OF demo_highlighted_reachable]
  from h r have h1: "idle (snd (onLeaveHandler demo_highlighted))" by simp
  from h r have "opacity (snd (onLeaveHandler demo_highlighted))
      (nat (fst (activePoint demo_highlighted))) (nat (snd (activePoint demo_highlighted))) = Some (3/10)"
    by simp
  then have h2: "opacity (snd (onLeaveHandler demo_highlighted)) 0 0 = Some (3/10)"
    by (simp add: demo_highlighted_facts(1))
  from h r have "trace (snd (onLeaveHandler demo_highlighted)) =
      trace demo_highlighted @
      [PointUpdate (nat (fst (activePoint demo_highlighted))) (nat (snd (activePoint demo_highlighted))) (3/10)] @
      (if tooltip demo_highlighted then [TooltipHide] else [])"
    by simp
  then have h3: "trace (snd (onLeaveHandler demo_highlighted)) =
     trace demo_highlighted @ [PointUpdate 0 0 (3/10), TooltipHide]"
    by (simp add: demo_highlighted_facts(1,4))
  from h have h4: "emphasized (snd (onLeaveHandler demo_highlighted)) = []" by (elim conjE)
  from h r have h5: "fst (onLeaveHandler demo_highlighted) = None" by simp
  from h have "fst (onLeaveHandler demo_highlighted) = None \<longrightarrow>
      tooltip_trace (snd (onLeaveHandler demo_highlighted)) =
      tooltip_trace demo_highlighted @ (if tooltip demo_highlighted then [TooltipHide] else [])"
    by (elim conjE)
  with h5 have h6: "tooltip_trace (snd (onLeaveHandler demo_highlighted)) =
     tooltip_trace demo_highlighted @ [TooltipHide]"
    by (simp add: demo_highlighted_facts(4))
  note c = leave_behaviour [OF demo_reachable]
  from c demo_chart_facts(1) have c1: "points (snd (onLeaveHandler demo_chart)) = points demo_chart"
    by simp
  from c demo_chart_facts(1) have "trace (snd (onLeaveHandler demo_chart)) =
      trace demo_chart @ (if tooltip demo_chart then [TooltipHide] else [])"
    by simp
  then have c2: "trace (snd (onLeaveHandler demo_chart)) = trace demo_chart @ [TooltipHide]"
    by (simp add: demo_chart_facts(2))
  show ?thesis
    by (intro conjI demo_highlighted_reachable r h1 h2 h3 h4 h5 h6 demo_reachable demo_chart_facts(1) c1 c2)
qed

text \<open>
  C4, as it is stated, fails: \<^verbatim>\<open>onLeave\<close> in the state \<open>Idle\<close> is not a no-op, and two
  leaves in a row make two \<^verbatim>\<open>hide()\<close> calls.
\<close>

theorem leave_when_idle_counterexample:
  "idle demo_chart \<and>
   trace (snd (onLeaveHandler demo_chart)) = trace demo_chart @ [TooltipHide] \<and>
   onLeaveHandler demo_chart \<noteq> (None, demo_chart) \<and>
   trace (snd (run [OnLeave, OnLeave] demo_chart)) = trace demo_chart @ [TooltipHide, TooltipHide]"
proof -
  have t1: "trace (snd (onLeaveHandler demo_chart)) = trace demo_chart @ [TooltipHide]"
    unfolding demo_chart_def by code_simp
  have t2: "trace (snd (run [OnLeave, OnLeave] demo_chart)) =
      trace demo_chart @ [TooltipHide, TooltipHide]"
    unfolding demo_chart_def by code_simp
  have n: "onLeaveHandler demo_chart \<noteq> (None, demo_chart)"
  proof
    assume "onLeaveHandler demo_chart = (None, demo_chart)"
    then have "trace (snd (onLeaveHandler demo_chart)) = trace demo_chart" by simp
    with t1 show False by simp
  qed
  show ?thesis by (intro conjI demo_chart_facts(1) t1 n t2)
qed

section \<open>Positions outside the registry\<close>

lemma target_sentinel_handler:
  assumes "fst (target p) = -1 \<or> snd (target p) = -1"
  shows "fst (onPointHandler (p # ps) s) = fst (deset s)"
    and "fst (onPointHandler (p # ps) s) = None \<Longrightarrow>
         activePoint (snd (onPointHandler (p # ps) s)) = target p \<and>
         points (snd (onPointHandler (p # ps) s)) = points (snd (deset s))"
proof -
  let ?k = "fst (target p)" and ?l = "snd (target p)"
  have f: "fst (set_activePoint ?k ?l s) = fst (deset s)"
  proof (cases "fst (deset s) = None")
    case True
    with assms show ?thesis by (simp add: set_activePoint_next activate_skip)
  next
    case False
    then have "deset s = (Some TypeError, s)" by (rule deset_Some)
    moreover from False have "set_activePoint ?k ?l s = (Some TypeError, s)"
      by (rule set_activePoint_throw)
    ultimately show ?thesis by simp
  qed
  then show "fst (onPointHandler (p # ps) s) = fst (deset s)" by (simp add: onPoint_fst)
  show "activePoint (snd (onPointHandler (p # ps) s)) = target p \<and>
         points (snd (onPointHandler (p # ps) s)) = points (snd (deset s))"
    if "fst (onPointHandler (p # ps) s) = None"
  proof -
    from that f have d: "fst (deset s) = None" by (simp add: onPoint_fst)
    with assms have "set_activePoint ?k ?l s = (None, assign ?k ?l (snd (deset s)))"
      by (simp add: set_activePoint_next activate_skip)
    then show ?thesis by (simp add: onPoint_keeps assign_def)
  qed
qed


text \<open>
  C8, as the code has it. An \<^verbatim>\<open>onPoint\<close> event whose resolved pair lies outside the
  bounds of the current registry and has neither index equal to the sentinel \<open>-1\<close> makes
  the handler throw a \<^verbatim>\<open>TypeError\<close>. The error comes from the dereference of the missing
  handle, there is no separate check: unless the previous reference is itself out of range
  (then nothing has changed), the previously active handle, if any, has been given the dim
  opacity and \<^verbatim>\<open>_activePoint\<close> already holds the new pair. No handle becomes emphasized
  and the tooltip is not called. A pair with an index equal to \<open>-1\<close> is taken as none:
  the handler dereferences nothing for it, fails only if the de-set of the previous
  reference fails, and on completion stores the pair as it is.
\<close>

theorem out_of_range_hit_throws:
  "(fst (target p) \<noteq> -1 \<and> snd (target p) \<noteq> -1 \<and> \<not> in_range (points s) (target p) \<longrightarrow>
      fst (onPointHandler (p # ps) s) = Some TypeError \<and>
      (if fst (activePoint s) \<noteq> -1 \<and> snd (activePoint s) \<noteq> -1 \<and>
          \<not> in_range (points s) (activePoint s)
       then snd (onPointHandler (p # ps) s) = s
       else activePoint (snd (onPointHandler (p # ps) s)) = target p \<and>
            (if fst (activePoint s) = -1 \<or> snd (activePoint s) = -1
             then points (snd (onPointHandler (p # ps) s)) = points s \<and>
                  trace (snd (onPointHandler (p # ps) s)) = trace s
             else points (snd (onPointHandler (p # ps) s)) =
                    restyle (points s) (fst (activePoint s)) (snd (activePoint s)) (3/10) \<and>
                  trace (snd (onPointHandler (p # ps) s)) =
                    trace s @
                    [PointUpdate (nat (fst (activePoint s))) (nat (snd (activePoint s))) (3/10)])) \<and>
      set (emphasized (snd (onPointHandler (p # ps) s))) \<subseteq> set (emphasized s) \<and>
      tooltip_trace (snd (onPointHandler (p # ps) s)) = tooltip_trace s) \<and>
   (fst (target p) = -1 \<or> snd (target p) = -1 \<longrightarrow>
      fst (onPointHandler (p # ps) s) = fst (deset s) \<and>
      (fst (onPointHandler (p # ps) s) = None \<longrightarrow>
         activePoint (snd (onPointHandler (p # ps) s)) = target p \<and>
         points (snd (onPointHandler (p # ps) s)) = points (snd (deset s))))"
proof (intro conjI impI)
  let ?k = "fst (target p)" and ?l = "snd (target p)"
  let ?i = "fst (activePoint s)" and ?j = "snd (activePoint s)"
  let ?s' = "snd (onPointHandler (p # ps) s)"
  let ?stale = "?i \<noteq> -1 \<and> ?j \<noteq> -1 \<and> \<not> in_range (points s) (activePoint s)"
  assume a: "?k \<noteq> -1 \<and> ?l \<noteq> -1 \<and> \<not> in_range (points s) (target p)"
  then have kl: "?k \<noteq> -1" "?l \<noteq> -1" and out: "\<not> in_range (points s) (target p)" by simp_all
  have main: "fst (onPointHandler (p # ps) s) = Some TypeError \<and>
      (if ?stale then ?s' = s
       else activePoint ?s' = target p \<and>
            (if ?i = -1 \<or> ?j = -1
             then points ?s' = points s \<and> trace ?s' = trace s
             else points ?s' = restyle (points s) ?i ?j (3/10) \<and>
                  trace ?s' = trace s @ [PointUpdate (nat ?i) (nat ?j) (3/10)])) \<and>
      set (emphasized ?s') \<subseteq> set (emphasized s)"
  proof (cases "fst (deset s) = None")
    case False
    then have st: ?stale using deset_throw_iff [of s] by simp
    from False have "set_activePoint ?k ?l s = (Some TypeError, s)" by (rule set_activePoint_throw)
    then have "onPointHandler (p # ps) s = (Some TypeError, s)" by (rule onPoint_of_setter_throw)
    with st show ?thesis by simp
  next
    case True
    then have nst: "\<not> ?stale" using deset_throw_iff [of s] by simp
    let ?s1 = "snd (deset s)"
    let ?s2 = "assign ?k ?l ?s1"
    have "\<not> in_range (points ?s2) (?k, ?l)"
      using out by (simp add: assign_def deset_keeps)
    with kl have "activate ?k ?l ?s2 = (Some TypeError, ?s2)" by (rule activate_throw)
    with True have "set_activePoint ?k ?l s = (Some TypeError, ?s2)"
      by (simp add: set_activePoint_next)
    then have eq: "onPointHandler (p # ps) s = (Some TypeError, ?s2)"
      by (rule onPoint_of_setter_throw)
    have p2: "points ?s2 = points ?s1" "trace ?s2 = trace ?s1" "activePoint ?s2 = target p"
      by (simp_all add: assign_def)
    show ?thesis
    proof (cases "?i = -1 \<or> ?j = -1")
      case sk: True
      then have d: "deset s = (None, s)" by (rule deset_skip)
      then have "emphasized ?s2 = emphasized s"
        by (intro emphasized_cong) (simp add: assign_def)
      then have sub: "set (emphasized ?s2) \<subseteq> set (emphasized s)" by simp
      from d p2 have q: "points ?s2 = points s" "trace ?s2 = trace s" by simp_all
      have "snd (onPointHandler (p # ps) s) = ?s2" "fst (onPointHandler (p # ps) s) = Some TypeError"
        using eq by simp_all
      then show ?thesis using nst sk q p2(3) sub by (simp only: if_not_P if_P simp_thms)
    next
      case False
      then have ne: "?i \<noteq> -1" "?j \<noteq> -1" by simp_all
      note r = deset_None_in_range [OF True ne]
      note d = deset_dim [OF ne r]
      have pts: "points ?s2 = restyle (points s) ?i ?j (3/10)" using d p2 by simp
      have tr: "trace ?s2 = trace s @ [PointUpdate (nat ?i) (nat ?j) (3/10)]" using d p2 by simp
      from r have r': "in_range (points s) (?i, ?j)" by simp
      have "set (emphasized ?s2) = set (emphasized s) - {(nat ?i, nat ?j)}"
        by (rule set_emphasized_dim [OF r' pts])
      then have sub: "set (emphasized ?s2) \<subseteq> set (emphasized s)" by simp
      have "snd (onPointHandler (p # ps) s) = ?s2" "fst (onPointHandler (p # ps) s) = Some TypeError"
        using eq by simp_all
      then show ?thesis using nst False pts tr p2(3) sub by (simp only: if_not_P simp_thms)
    qed
  qed
  from main show "fst (onPointHandler (p # ps) s) = Some TypeError" by simp
  from main show "if ?stale then ?s' = s
       else activePoint ?s' = target p \<and>
            (if ?i = -1 \<or> ?j = -1
             then points ?s' = points s \<and> trace ?s' = trace s
             else points ?s' = restyle (points s) ?i ?j (3/10) \<and>
                  trace ?s' = trace s @ [PointUpdate (nat ?i) (nat ?j) (3/10)])" by simp
  from main show "set (emphasized ?s') \<subseteq> set (emphasized s)" by simp
  from main have "fst (onPointHandler (p # ps) s) \<noteq> None" by simp
  then show "tooltip_trace ?s' = tooltip_trace s" by (rule onPoint_tooltip_trace_throw)
next
  assume "fst (target p) = -1 \<or> snd (target p) = -1"
  then show "fst (onPointHandler (p # ps) s) = fst (deset s)" by (rule target_sentinel_handler)
next
  assume "fst (target p) = -1 \<or> snd (target p) = -1"
    and "fst (onPointHandler (p # ps) s) = None"
  then show "activePoint (snd (onPointHandler (p # ps) s)) = target p"
    using target_sentinel_handler(2) [of p ps s] by simp
next
  assume "fst (target p) = -1 \<or> snd (target p) = -1"
    and "fst (onPointHandler (p # ps) s) = None"
  then show "points (snd (onPointHandler (p # ps) s)) = points (snd (deset s))"
    using target_sentinel_handler(2) [of p ps s] by simp
qed

theorem out_of_range_hit_throws_witness:
  "fst (target (hit_at 5 0)) \<noteq> -1 \<and> snd (target (hit_at 5 0)) \<noteq> -1 \<and>
   \<not> in_range (points demo_chart) (target (hit_at 5 0)) \<and>
   fst (onPointHandler [hit_at 5 0] demo_chart) = Some TypeError \<and>
   activePoint (snd (onPointHandler [hit_at 5 0] demo_chart)) = (5, 0) \<and>
   points (snd (onPointHandler [hit_at 5 0] demo_chart)) = points demo_chart \<and>
   trace (snd (onPointHandler [hit_at 5 0] demo_chart)) = trace demo_chart \<and>
   (fst (target (hit_at 2 (-1))) = -1 \<or> snd (target (hit_at 2 (-1))) = -1) \<and>
   fst (onPointHandler [hit_at 2 (-1)] demo_chart) = None \<and>
   activePoint (snd (onPointHandler [hit_at 2 (-1)] demo_chart)) = (2, -1)"
proof -
  have t: "target (hit_at 5 0) = (5, 0)" by (rule target_hit_at)
  have r: "\<not> in_range (points demo_chart) (target (hit_at 5 0))"
    using demo_chart_facts(3) by (simp add: target_hit_at)
  have a: "activePoint demo_chart = (-1, -1)" using demo_chart_facts(1) by (simp add: idle_def)
  note w = out_of_range_hit_throws [of "hit_at 5 0" demo_chart "[]"]
  from w t r have f: "fst (onPointHandler [hit_at 5 0] demo_chart) = Some TypeError" by simp
  from w t r a have rest: "activePoint (snd (onPointHandler [hit_at 5 0] demo_chart)) = (5, 0) \<and>
      points (snd (onPointHandler [hit_at 5 0] demo_chart)) = points demo_chart \<and>
      trace (snd (onPointHandler [hit_at 5 0] demo_chart)) = trace demo_chart" by simp
  have t2: "target (hit_at 2 (-1)) = (2, -1)" by (rule target_hit_at)
  have d: "deset demo_chart = (None, demo_chart)" using a by (simp add: deset_skip)
  note v = out_of_range_hit_throws [of "hit_at 2 (-1)" demo_chart "[]"]
  from v t2 d have g: "fst (onPointHandler [hit_at 2 (-1)] demo_chart) = None" by simp
  from v t2 g have h: "activePoint (snd (onPointHandler [hit_at 2 (-1)] demo_chart)) = (2, -1)"
    by simp
  from t r f rest t2 g h show ?thesis by simp
qed

text \<open>
  C8, as it is stated, fails: the pair \<open>(2, -1)\<close> lies outside the registry, and the
  handler returns normally, stores the pair and updates the tooltip.
\<close>

theorem out_of_range_sentinel_counterexample:
  "\<not> in_range (points demo_chart) (target (hit_at 2 (-1))) \<and>
   fst (onPointHandler [hit_at 2 (-1)] demo_chart) = None \<and>
   activePoint (snd (onPointHandler [hit_at 2 (-1)] demo_chart)) = (2, -1) \<and>
   trace (snd (onPointHandler [hit_at 2 (-1)] demo_chart)) =
     trace demo_chart @ [TooltipUpdateData [hit_at 2 (-1)]]"
  unfolding demo_chart_def by code_simp

end
